theory Spec2Isabelle
  imports Main "HOL-Library.Char_ord" "HOL-Library.List_Lexorder"
begin

section \<open>Python values decoded from JSON\<close>

text \<open>
  Every value the runner handles comes out of \<^verbatim>\<open>response.json()\<close>: \<^verbatim>\<open>None\<close>, a bool, an
  int, a str, a list or a dict with string keys. A dict is an association list of its items
  in insertion order (a decoded dict has no duplicate key), a str is the list of its UTF-8
  bytes (byte-wise lexicographic order is code-point order). JSON numbers with a fraction
  (Python floats), texts holding half of a surrogate pair, and integers of more digits than
  the interpreter converts to and from text are outside the model.
\<close>

datatype json =
    JNull
  | JBool bool
  | JInt int
  | JStr string
  | JArr "json list"
  | JObj "(string \<times> json) list"

text \<open>The exceptions the source can meet. \<open>SessionError\<close> is whatever \<^verbatim>\<open>session.get\<close> or
  \<^verbatim>\<open>session.post\<close> itself raises (no connection, a timeout, a header it refuses): every
  handler of the source catches \<^verbatim>\<open>Exception\<close>, so its class is not told apart.
  \<open>AuthError\<close> and \<open>TriggerError\<close> are the \<^verbatim>\<open>Exception(f"...: {str(e)}")\<close> wrappers of
  \<^verbatim>\<open>_get_access_token\<close> and \<^verbatim>\<open>trigger_dag\<close>.\<close>

datatype exn =
    SessionError
  | HTTPError nat
  | JSONDecodeError
  | AttributeError
  | TypeError
  | KeyError
  | IndexError
  | ValueError
  | OverflowError
  | AuthError exn
  | TriggerError exn

definition bindE :: "exn + 'a \<Rightarrow> ('a \<Rightarrow> exn + 'b) \<Rightarrow> exn + 'b" where
  "bindE m f = (case m of Inl e \<Rightarrow> Inl e | Inr x \<Rightarrow> f x)"

text \<open>\<^verbatim>\<open>bool(v)\<close>, as \<^verbatim>\<open>not v\<close> and \<^verbatim>\<open>a and b\<close> use it.\<close>

fun py_truthy :: "json \<Rightarrow> bool" where
  "py_truthy JNull = False"
| "py_truthy (JBool b) = b"
| "py_truthy (JInt i) = (i \<noteq> 0)"
| "py_truthy (JStr s) = (s \<noteq> [])"
| "py_truthy (JArr xs) = (xs \<noteq> [])"
| "py_truthy (JObj kvs) = (kvs \<noteq> [])"

text \<open>\<^verbatim>\<open>v.get(k, d)\<close>: only a dict has the method.\<close>

fun py_get :: "json \<Rightarrow> string \<Rightarrow> json \<Rightarrow> exn + json" where
  "py_get (JObj kvs) k d = Inr (case map_of kvs k of Some v \<Rightarrow> v | None \<Rightarrow> d)"
| "py_get _ k d = Inl AttributeError"

text \<open>\<^verbatim>\<open>v[k]\<close> with a string \<open>k\<close>.\<close>

fun py_item :: "json \<Rightarrow> string \<Rightarrow> exn + json" where
  "py_item (JObj kvs) k = (case map_of kvs k of Some v \<Rightarrow> Inr v | None \<Rightarrow> Inl KeyError)"
| "py_item _ k = Inl TypeError"

text \<open>The characters of a str: each is one to four bytes of the UTF-8 text, as its first
  byte tells.\<close>

definition utf8_width :: "char \<Rightarrow> nat" where
  "utf8_width c =
     (if (of_char c :: nat) < 0xC0 then 1 else if (of_char c :: nat) < 0xE0 then 2
      else if (of_char c :: nat) < 0xF0 then 3 else 4)"

function utf8_chars :: "string \<Rightarrow> string list" where
  "utf8_chars [] = []"
| "utf8_chars (c # cs) =
     (c # take (utf8_width c - 1) cs) # utf8_chars (drop (utf8_width c - 1) cs)"
  by pat_completeness auto
termination
  by (relation "measure length") auto

text \<open>\<^verbatim>\<open>v[0]\<close>. The keys of a decoded dict are strings, so \<open>0\<close> is never one of them.\<close>

fun py_first :: "json \<Rightarrow> exn + json" where
  "py_first (JArr xs) = (case xs of [] \<Rightarrow> Inl IndexError | x # _ \<Rightarrow> Inr x)"
| "py_first (JStr s) = (case utf8_chars s of [] \<Rightarrow> Inl IndexError | c # _ \<Rightarrow> Inr (JStr c))"
| "py_first (JObj kvs) = Inl KeyError"
| "py_first _ = Inl TypeError"

text \<open>\<^verbatim>\<open>for x in v\<close>: the items of a list, the characters of a str, the keys of a dict.\<close>

fun py_iter :: "json \<Rightarrow> exn + json list" where
  "py_iter (JArr xs) = Inr xs"
| "py_iter (JStr s) = Inr (map JStr (utf8_chars s))"
| "py_iter (JObj kvs) = Inr (map (\<lambda>kv. JStr (fst kv)) kvs)"
| "py_iter _ = Inl TypeError"

text \<open>\<^verbatim>\<open>a == b\<close>: a bool is the int 0 or 1, lists are equal item by item, dicts as mappings.\<close>

fun py_num :: "json \<Rightarrow> int option" where
  "py_num (JBool b) = Some (if b then 1 else 0)"
| "py_num (JInt i) = Some i"
| "py_num _ = None"

fun py_eq :: "json \<Rightarrow> json \<Rightarrow> bool"
  and py_eq_list :: "json list \<Rightarrow> json list \<Rightarrow> bool"
  and py_eq_items :: "(string \<times> json) list \<Rightarrow> (string \<times> json) list \<Rightarrow> bool" where
  "py_eq JNull b = (b = JNull)"
| "py_eq (JBool x) b = (py_num b = Some (if x then 1 else 0))"
| "py_eq (JInt i) b = (py_num b = Some i)"
| "py_eq (JStr s) b = (b = JStr s)"
| "py_eq (JArr xs) b = (case b of JArr ys \<Rightarrow> py_eq_list xs ys | _ \<Rightarrow> False)"
| "py_eq (JObj kvs) b =
     (case b of JObj kvs' \<Rightarrow> length kvs = length kvs' \<and> py_eq_items kvs kvs' | _ \<Rightarrow> False)"
| "py_eq_list [] ys = (ys = [])"
| "py_eq_list (x # xs) ys = (case ys of [] \<Rightarrow> False | y # ys' \<Rightarrow> py_eq x y \<and> py_eq_list xs ys')"
| "py_eq_items [] kvs' = True"
| "py_eq_items (kv # kvs) kvs' =
     ((case map_of kvs' (fst kv) of None \<Rightarrow> False | Some v' \<Rightarrow> py_eq (snd kv) v')
      \<and> py_eq_items kvs kvs')"

text \<open>\<^verbatim>\<open>a > b\<close>: numbers with numbers, str with str, list with list (the first pair of
  unequal items decides, else the longer list is greater); anything else is a TypeError.\<close>

fun py_gt :: "json \<Rightarrow> json \<Rightarrow> exn + bool"
  and py_gt_list :: "json list \<Rightarrow> json list \<Rightarrow> exn + bool" where
  "py_gt (JBool x) b = (case py_num b of Some j \<Rightarrow> Inr ((if x then 1 else 0) > j) | None \<Rightarrow> Inl TypeError)"
| "py_gt (JInt i) b = (case py_num b of Some j \<Rightarrow> Inr (i > j) | None \<Rightarrow> Inl TypeError)"
| "py_gt (JStr s) b = (case b of JStr t \<Rightarrow> Inr (s > t) | _ \<Rightarrow> Inl TypeError)"
| "py_gt (JArr xs) b = (case b of JArr ys \<Rightarrow> py_gt_list xs ys | _ \<Rightarrow> Inl TypeError)"
| "py_gt JNull b = Inl TypeError"
| "py_gt (JObj kvs) b = Inl TypeError"
| "py_gt_list [] ys = Inr False"
| "py_gt_list (x # xs) ys =
     (case ys of [] \<Rightarrow> Inr True
      | y # ys' \<Rightarrow> if py_eq x y then py_gt_list xs ys' else py_gt x y)"

text \<open>The key under which a \<^verbatim>\<open>set\<close> or a \<^verbatim>\<open>dict\<close> files a value: hashing a list or a
  dict is a TypeError, and \<^verbatim>\<open>True\<close>, \<^verbatim>\<open>False\<close> are the keys \<open>1\<close>, \<open>0\<close>.\<close>

datatype key = KNone | KNum int | KStr string

fun py_hash :: "json \<Rightarrow> exn + key" where
  "py_hash JNull = Inr KNone"
| "py_hash (JBool b) = Inr (KNum (if b then 1 else 0))"
| "py_hash (JInt i) = Inr (KNum i)"
| "py_hash (JStr s) = Inr (KStr s)"
| "py_hash (JArr xs) = Inl TypeError"
| "py_hash (JObj kvs) = Inl TypeError"

text \<open>
  What the interpreter's Unicode tables decide is not part of the repository and is taken
  as given: the upper and lower case of a text that is not plain ASCII, and its \<^verbatim>\<open>repr\<close>
  (which characters beyond ASCII are printable). On ASCII text the three are fixed, and are
  defined below.
\<close>

record python =
  unicode_upper :: "string \<Rightarrow> string"
  unicode_lower :: "string \<Rightarrow> string"
  unicode_repr :: "string \<Rightarrow> string"

definition is_ascii :: "string \<Rightarrow> bool" where
  "is_ascii s = list_all (\<lambda>c. (of_char c :: nat) < 128) s"

text \<open>\<^verbatim>\<open>s.lower()\<close> and \<^verbatim>\<open>s.upper()\<close>; a value that is not a str has neither method.\<close>

definition lower_char :: "char \<Rightarrow> char" where
  "lower_char c = (if CHR ''A'' \<le> c \<and> c \<le> CHR ''Z'' then char_of (of_char c + (32::nat)) else c)"

definition upper_char :: "char \<Rightarrow> char" where
  "upper_char c = (if CHR ''a'' \<le> c \<and> c \<le> CHR ''z'' then char_of (of_char c - (32::nat)) else c)"

definition str_lower :: "python \<Rightarrow> string \<Rightarrow> string" where
  "str_lower py s = (if is_ascii s then map lower_char s else unicode_lower py s)"

definition str_upper :: "python \<Rightarrow> string \<Rightarrow> string" where
  "str_upper py s = (if is_ascii s then map upper_char s else unicode_upper py s)"

fun py_lower :: "python \<Rightarrow> json \<Rightarrow> exn + string" where
  "py_lower py (JStr s) = Inr (str_lower py s)"
| "py_lower py _ = Inl AttributeError"

fun py_upper :: "python \<Rightarrow> json \<Rightarrow> exn + string" where
  "py_upper py (JStr s) = Inr (str_upper py s)"
| "py_upper py _ = Inl AttributeError"

text \<open>\<^verbatim>\<open>str(v)\<close>, as an f-string formats a value: a str is itself, anything else is its
  \<^verbatim>\<open>repr\<close>. The \<^verbatim>\<open>repr\<close> of an ASCII str inside a list or dict quotes it and escapes the
  quote, the backslash and the control characters.\<close>

definition digit_char :: "nat \<Rightarrow> char" where
  "digit_char d = (if d < 10 then char_of (48 + d) else char_of (87 + d))"

function dec_nat :: "nat \<Rightarrow> string" where
  "dec_nat n = (if n < 10 then [digit_char n] else dec_nat (n div 10) @ [digit_char (n mod 10)])"
  by pat_completeness auto
termination
  by (relation "measure (\<lambda>n. n)") auto

definition dec_int :: "int \<Rightarrow> string" where
  "dec_int i = (if i < 0 then CHR ''-'' # dec_nat (nat (- i)) else dec_nat (nat i))"

definition repr_quote :: "string \<Rightarrow> char" where
  "repr_quote s = (if CHR 0x27 \<in> set s \<and> CHR 0x22 \<notin> set s then CHR 0x22 else CHR 0x27)"

definition repr_char :: "char \<Rightarrow> char \<Rightarrow> string" where
  "repr_char q c =
     (if c = q \<or> c = CHR 0x5C then [CHR 0x5C, c]
      else if c = CHR 0x09 then [CHR 0x5C, CHR ''t'']
      else if c = CHR 0x0A then [CHR 0x5C, CHR ''n'']
      else if c = CHR 0x0D then [CHR 0x5C, CHR ''r'']
      else if c < CHR 0x20 \<or> c = CHR 0x7F
        then [CHR 0x5C, CHR ''x'', digit_char (of_char c div 16), digit_char (of_char c mod 16)]
      else [c])"

definition repr_str :: "python \<Rightarrow> string \<Rightarrow> string" where
  "repr_str py s =
     (if is_ascii s then (let q = repr_quote s in q # concat (map (repr_char q) s) @ [q])
      else unicode_repr py s)"

fun py_repr :: "python \<Rightarrow> json \<Rightarrow> string"
  and py_repr_list :: "python \<Rightarrow> json list \<Rightarrow> string"
  and py_repr_items :: "python \<Rightarrow> (string \<times> json) list \<Rightarrow> string" where
  "py_repr py JNull = ''None''"
| "py_repr py (JBool b) = (if b then ''True'' else ''False'')"
| "py_repr py (JInt i) = dec_int i"
| "py_repr py (JStr s) = repr_str py s"
| "py_repr py (JArr xs) = ''['' @ py_repr_list py xs @ '']''"
| "py_repr py (JObj kvs) = ''{'' @ py_repr_items py kvs @ ''}''"
| "py_repr_list py [] = []"
| "py_repr_list py (x # xs) = py_repr py x @ (if xs = [] then [] else '', '' @ py_repr_list py xs)"
| "py_repr_items py [] = []"
| "py_repr_items py (kv # kvs) =
     repr_str py (fst kv) @ '': '' @ py_repr py (snd kv)
     @ (if kvs = [] then [] else '', '' @ py_repr_items py kvs)"

fun py_str :: "python \<Rightarrow> json \<Rightarrow> string" where
  "py_str py (JStr s) = s"
| "py_str py v = py_repr py v"

section \<open>The HTTP session and what the program does to the world\<close>

text \<open>
  What one HTTP call meets: no response at all (\<^verbatim>\<open>session.get\<close> or \<^verbatim>\<open>session.post\<close> raises,
  for a reason that lies in the URL or in the network), or a response with a status code
  and a body, the body decoded where it is JSON. \<open>fetch_json\<close> is the idiom the source
  repeats at every call:
  \<^verbatim>\<open>resp = self.session.get(url); resp.raise_for_status(); resp.json()\<close>,
  where \<^verbatim>\<open>raise_for_status\<close> raises on the codes 400 to 599.
\<close>

datatype response = NoResponse | Response nat "json option"

fun fetch_json :: "response \<Rightarrow> exn + json" where
  "fetch_json NoResponse = Inl SessionError"
| "fetch_json (Response code body) =
     (if 400 \<le> code \<and> code < 600 then Inl (HTTPError code)
      else case body of None \<Rightarrow> Inl JSONDecodeError | Some j \<Rightarrow> Inr j)"

text \<open>
  The effects, in the order they happen: the calls of \<^verbatim>\<open>session.post\<close> and \<^verbatim>\<open>session.get\<close>
  (the URL of each is fixed by the DAG id, the run id and the task id put into it; the call
  is recorded, whether or not anything leaves the machine), the lines printed, one
  constructor for each \<^verbatim>\<open>print\<close> of the source with the values it formats (a log line is the
  formatted text; the text of an exception is not modelled, so a diagnostic holds the
  exception), and the sleeps. \<^verbatim>\<open>print\<close> is taken to succeed: the console takes every text.
\<close>

datatype request =
    PostAuth string string
  | PostTrigger string json
  | GetStatus string json
  | GetTasks string json
  | GetLogs string json json

datatype event =
    Request request
  | PrintLog string
  | PrintLogsFailed json exn
  | PrintFinished json
  | PrintMonitorFailed exn
  | PrintRunId json
  | PrintFailed exn
  | Sleep int

record runner =
  airflow_url :: string
  log_sources :: "string list"
  access_token :: json

text \<open>
  After \<^verbatim>\<open>__init__\<close> every call of the session carries the header
  \<^verbatim>\<open>Authorization: Bearer {self.access_token}\<close>. The session and the HTTP library under it
  refuse a header value that holds a carriage return or a line feed, or a character beyond
  U+00FF (in UTF-8: a byte from 0xC4 on): the call raises then, whatever the server would
  have answered.
\<close>

definition header_ok :: "python \<Rightarrow> json \<Rightarrow> bool" where
  "header_ok py token =
     list_all (\<lambda>c. c \<noteq> CHR 0x0A \<and> c \<noteq> CHR 0x0D \<and> (of_char c :: nat) < 0xC4) (py_str py token)"

definition session_call :: "python \<Rightarrow> runner \<Rightarrow> response \<Rightarrow> response" where
  "session_call py self resp = (if header_ok py (access_token self) then resp else NoResponse)"

section \<open>The Log Tailer: \<^verbatim>\<open>_print_task_logs\<close>\<close>

text \<open>The default of \<^verbatim>\<open>.get("content", ...)\<close>, a Russian sentence ("no logs"), in UTF-8.\<close>

definition no_logs_text :: string where
  "no_logs_text =
     [CHR 0xD0, CHR 0x9B, CHR 0xD0, CHR 0xBE, CHR 0xD0, CHR 0xB3, CHR 0xD0, CHR 0xB8, CHR 0x20,
      CHR 0xD0, CHR 0xBE, CHR 0xD1, CHR 0x82, CHR 0xD1, CHR 0x81, CHR 0xD1, CHR 0x83, CHR 0xD1,
      CHR 0x82, CHR 0xD1, CHR 0x81, CHR 0xD1, CHR 0x82, CHR 0xD0, CHR 0xB2, CHR 0xD1, CHR 0x83,
      CHR 0xD1, CHR 0x8E, CHR 0xD1, CHR 0x82]"

text \<open>
  The condition of the list comprehension (lines 101 and 102), with Python's precedence
  (\<^verbatim>\<open>and\<close> binds tighter than \<^verbatim>\<open>or\<close>) and its short-circuit evaluation:
  \<^verbatim>\<open>not self.log_sources or (r.get("logger") in self.log_sources
       and (not cutoff or r.get('timestamp') > cutoff))\<close>.
  \<^verbatim>\<open>x in self.log_sources\<close> compares \<open>x\<close> with each source name, a str.
\<close>

definition keep_entry :: "string list \<Rightarrow> json \<Rightarrow> json \<Rightarrow> exn + bool" where
  "keep_entry srcs cutoff r =
     (if srcs = [] then Inr True
      else bindE (py_get r ''logger'' JNull) (\<lambda>lg.
        if lg \<notin> JStr ` set srcs then Inr False
        else if \<not> py_truthy cutoff then Inr True
        else bindE (py_get r ''timestamp'' JNull) (\<lambda>ts. py_gt ts cutoff)))"

fun filter_logs :: "string list \<Rightarrow> json \<Rightarrow> json list \<Rightarrow> exn + json list" where
  "filter_logs srcs cutoff [] = Inr []"
| "filter_logs srcs cutoff (r # rs) =
     bindE (keep_entry srcs cutoff r) (\<lambda>k.
     bindE (filter_logs srcs cutoff rs) (\<lambda>ks.
       Inr (if k then r # ks else ks)))"

text \<open>Lines 98 to 100 after the call: the entries the server sends, \<^verbatim>\<open>log_content\<close> as the
  \<^verbatim>\<open>for\<close> of the comprehension walks it.\<close>

definition fetch_log_content :: "response \<Rightarrow> exn + json list" where
  "fetch_log_content resp =
     bindE (fetch_json resp) (\<lambda>body.
     bindE (py_get body ''content'' (JStr no_logs_text)) py_iter)"

text \<open>Lines 98 to 102: \<^verbatim>\<open>filtered_logs\<close>, where \<open>resp\<close> is what the server answers to the
  request for the log.\<close>

definition fetch_filtered_logs :: "python \<Rightarrow> runner \<Rightarrow> json \<Rightarrow> response \<Rightarrow> exn + json list" where
  "fetch_filtered_logs py self cutoff resp =
     bindE (fetch_log_content (session_call py self resp)) (filter_logs (log_sources self) cutoff)"

text \<open>Lines 108 to 112: \<^verbatim>\<open>log_item['error_detail'][0]['exc_value']\<close> under
  \<^verbatim>\<open>except (IndexError, KeyError, TypeError): pass\<close>, after \<^verbatim>\<open>error_detail = None\<close>.\<close>

definition exc_value_lookup :: "json \<Rightarrow> exn + json" where
  "exc_value_lookup log_item =
     bindE (bindE (py_item log_item ''error_detail'') py_first) (\<lambda>d. py_item d ''exc_value'')"

definition extract_error_detail :: "json \<Rightarrow> exn + json" where
  "extract_error_detail log_item =
     (case exc_value_lookup log_item of
        Inr v \<Rightarrow> Inr v
      | Inl e \<Rightarrow> if e \<in> {IndexError, KeyError, TypeError} then Inr JNull else Inl e)"

text \<open>Lines 104 to 117, the body of the \<^verbatim>\<open>for\<close> loop: the line printed for one kept entry.\<close>

definition render_item :: "python \<Rightarrow> json \<Rightarrow> json \<Rightarrow> exn + string" where
  "render_item py task_id log_item =
     bindE (py_item log_item ''timestamp'') (\<lambda>ts.
     bindE (py_get log_item ''event'' JNull) (\<lambda>event.
     bindE (py_get log_item ''level'' JNull) (\<lambda>level.
     bindE (extract_error_detail log_item) (\<lambda>error_detail.
     bindE (py_lower py level) (\<lambda>lower.
       let msg = (if lower = ''error'' \<and> py_truthy error_detail
                  then JStr (py_str py event @ '': '' @ py_str py error_detail)
                  else event)
       in bindE (py_upper py level) (\<lambda>upper.
            Inr (py_str py ts @ '' - '' @ py_str py task_id @ '': ['' @ upper @ ''] ''
                 @ py_str py msg)))))))"

text \<open>The \<^verbatim>\<open>for\<close> loop of lines 103 to 117: the lines printed, and the exception that stopped
  the loop, if any.\<close>

fun print_items :: "python \<Rightarrow> json \<Rightarrow> json list \<Rightarrow> exn option \<times> event list" where
  "print_items py task_id [] = (None, [])"
| "print_items py task_id (x # xs) =
     (case render_item py task_id x of
        Inl e \<Rightarrow> (Some e, [])
      | Inr l \<Rightarrow> (case print_items py task_id xs of (r, evs) \<Rightarrow> (r, PrintLog l # evs)))"

text \<open>Lines 98 to 118, the body of the \<^verbatim>\<open>try\<close>: the value returned or the exception raised,
  and the effects up to there.\<close>

definition try_print_task_logs ::
  "python \<Rightarrow> runner \<Rightarrow> string \<Rightarrow> json \<Rightarrow> json \<Rightarrow> json \<Rightarrow> response \<Rightarrow> (exn + json) \<times> event list" where
  "try_print_task_logs py self dag_id dag_run_id task_id cutoff resp =
     (let req = Request (GetLogs dag_id dag_run_id task_id) in
      case fetch_filtered_logs py self cutoff resp of
        Inl e \<Rightarrow> (Inl e, [req])
      | Inr filtered_logs \<Rightarrow>
          (case print_items py task_id filtered_logs of
             (Some e, evs) \<Rightarrow> (Inl e, req # evs)
           | (None, evs) \<Rightarrow>
               (if filtered_logs \<noteq> [] then py_item (last filtered_logs) ''timestamp'' else Inr cutoff,
                req # evs)))"

text \<open>The whole method: the handler of lines 119 and 120 prints and falls off the end of
  the function, so the call returns \<^verbatim>\<open>None\<close>.\<close>

definition print_task_logs ::
  "python \<Rightarrow> runner \<Rightarrow> string \<Rightarrow> json \<Rightarrow> json \<Rightarrow> json \<Rightarrow> response \<Rightarrow> json \<times> event list" where
  "print_task_logs py self dag_id dag_run_id task_id cutoff resp =
     (case try_print_task_logs py self dag_id dag_run_id task_id cutoff resp of
        (Inr v, evs) \<Rightarrow> (v, evs)
      | (Inl e, evs) \<Rightarrow> (JNull, evs @ [PrintLogsFailed task_id e]))"

section \<open>The Monitor: \<^verbatim>\<open>monitor_dag\<close>\<close>

text \<open>
  The two locals the loop keeps, \<^verbatim>\<open>logged_tasks\<close> (a set) and \<^verbatim>\<open>task_log_cutoffs\<close> (a dict),
  and what the server answers in one tick: to the status request, to the task list request,
  and to the log request made for the task instance at position \<open>i\<close> of the list.
\<close>

record mon_state =
  logged_tasks :: "key set"
  task_log_cutoffs :: "key \<rightharpoonup> json"

record tick_env =
  status_resp :: response
  tasks_resp :: response
  log_resp :: "nat \<Rightarrow> response"

definition completed_states :: "string set" where
  "completed_states = {''success'', ''failed''}"

definition running_states :: "string set" where
  "running_states = {''running''}"

text \<open>\<^verbatim>\<open>x in completed_states\<close>: membership in a set hashes \<open>x\<close> first.\<close>

definition in_completed :: "json \<Rightarrow> exn + bool" where
  "in_completed x = bindE (py_hash x) (\<lambda>k. Inr (k \<in> KStr ` completed_states))"

text \<open>\<^verbatim>\<open>task_log_cutoffs.get(task_id)\<close>, for the key of \<open>task_id\<close>.\<close>

definition get_cutoff :: "mon_state \<Rightarrow> key \<Rightarrow> json" where
  "get_cutoff st k = (case task_log_cutoffs st k of None \<Rightarrow> JNull | Some c \<Rightarrow> c)"

text \<open>Lines 71 to 80, the body of \<^verbatim>\<open>for task in tasks\<close>, for the task at position \<open>i\<close>.
  \<^verbatim>\<open>x in [*running_states, *completed_states]\<close> is membership in a list: no hashing.\<close>

definition task_step ::
  "python \<Rightarrow> runner \<Rightarrow> string \<Rightarrow> json \<Rightarrow> tick_env \<Rightarrow> nat \<Rightarrow> json \<Rightarrow> mon_state
     \<Rightarrow> (exn + mon_state) \<times> event list" where
  "task_step py self dag_id dag_run_id env i task st =
     (case bindE (py_get task ''task_id'' JNull) (\<lambda>task_id.
           bindE (py_get task ''state'' JNull) (\<lambda>task_state.
           bindE (py_hash task_id) (\<lambda>k. Inr (task_id, task_state, k)))) of
        Inl e \<Rightarrow> (Inl e, [])
      | Inr (task_id, task_state, k) \<Rightarrow>
          if k \<in> logged_tasks st then (Inr st, [])
          else
            (case (if task_state \<in> JStr ` (running_states \<union> completed_states)
                   then (case print_task_logs py self dag_id dag_run_id task_id (get_cutoff st k)
                                (log_resp env i) of
                           (cutoff, evs) \<Rightarrow>
                             (st\<lparr>task_log_cutoffs := (task_log_cutoffs st)(k \<mapsto> cutoff)\<rparr>, evs))
                   else (st, [])) of
               (st', evs) \<Rightarrow>
                 (bindE (in_completed task_state) (\<lambda>c.
                    Inr (if c then st'\<lparr>logged_tasks := insert k (logged_tasks st')\<rparr> else st')),
                  evs)))"

fun tasks_loop ::
  "python \<Rightarrow> runner \<Rightarrow> string \<Rightarrow> json \<Rightarrow> tick_env \<Rightarrow> nat \<Rightarrow> json list \<Rightarrow> mon_state
     \<Rightarrow> (exn + mon_state) \<times> event list" where
  "tasks_loop py self dag_id dag_run_id env i [] st = (Inr st, [])"
| "tasks_loop py self dag_id dag_run_id env i (task # tasks) st =
     (case task_step py self dag_id dag_run_id env i task st of
        (Inl e, evs) \<Rightarrow> (Inl e, evs)
      | (Inr st', evs) \<Rightarrow>
          (case tasks_loop py self dag_id dag_run_id env (Suc i) tasks st' of
             (r, evs') \<Rightarrow> (r, evs @ evs')))"

text \<open>Lines 61 to 63 and 66 to 68: the state of the run, and the task instances as the
  \<^verbatim>\<open>for\<close> of line 70 walks them.\<close>

definition fetch_state :: "python \<Rightarrow> runner \<Rightarrow> tick_env \<Rightarrow> exn + json" where
  "fetch_state py self env =
     bindE (fetch_json (session_call py self (status_resp env))) (\<lambda>body. py_get body ''state'' JNull)"

definition fetch_tasks :: "python \<Rightarrow> runner \<Rightarrow> tick_env \<Rightarrow> exn + json list" where
  "fetch_tasks py self env =
     bindE (fetch_json (session_call py self (tasks_resp env))) (\<lambda>body.
     bindE (py_get body ''task_instances'' (JArr [])) py_iter)"

text \<open>\<^verbatim>\<open>time.sleep(secs)\<close> on an int: a length that does not fit the clock (in nanoseconds, 64
  bits) is an OverflowError, a negative one a ValueError.\<close>

definition time_sleep :: "int \<Rightarrow> exn + unit" where
  "time_sleep secs =
     (if secs \<le> - 9223372037 \<or> 9223372037 \<le> secs then Inl OverflowError
      else if secs < 0 then Inl ValueError
      else Inr ())"

text \<open>
  Lines 59 to 87, the body of the \<^verbatim>\<open>try\<close> inside \<^verbatim>\<open>while True\<close>: one tick. It ends with the
  state of the run when line 85 breaks out of the loop (\<open>Some state\<close>), with \<open>None\<close> after
  the sleep, or with the exception raised.
\<close>

definition try_tick ::
  "python \<Rightarrow> runner \<Rightarrow> string \<Rightarrow> json \<Rightarrow> int \<Rightarrow> tick_env \<Rightarrow> mon_state
     \<Rightarrow> (exn + json option \<times> mon_state) \<times> event list" where
  "try_tick py self dag_id dag_run_id interval env st =
     (case fetch_state py self env of
        Inl e \<Rightarrow> (Inl e, [Request (GetStatus dag_id dag_run_id)])
      | Inr state \<Rightarrow>
          (case fetch_tasks py self env of
             Inl e \<Rightarrow> (Inl e, [Request (GetStatus dag_id dag_run_id), Request (GetTasks dag_id dag_run_id)])
           | Inr tasks \<Rightarrow>
               (case tasks_loop py self dag_id dag_run_id env 0 tasks st of
                  (r, evs) \<Rightarrow>
                    (let evs0 = [Request (GetStatus dag_id dag_run_id), Request (GetTasks dag_id dag_run_id)] @ evs in
                     case bindE r (\<lambda>st'. bindE (in_completed state) (\<lambda>c. Inr (st', c))) of
                       Inl e \<Rightarrow> (Inl e, evs0)
                     | Inr (st', c) \<Rightarrow>
                         if c then (Inr (Some state, st'), evs0 @ [PrintFinished state])
                         else (case time_sleep interval of
                                 Inl e \<Rightarrow> (Inl e, evs0)
                               | Inr u \<Rightarrow> (Inr (None, st'), evs0 @ [Sleep interval]))))))"

text \<open>
  The loop, on the ticks it is given: it ends \<open>Finished\<close> at the \<^verbatim>\<open>break\<close> of line 85,
  \<open>Aborted\<close> at the \<^verbatim>\<open>break\<close> of line 91 (after the diagnostic of line 90), and is
  \<open>Polling\<close> still when the ticks given are used up. The state returned with \<open>Aborted\<close> is
  the one the tick started with: the two locals are dead once the loop is left.
\<close>

datatype outcome = Finished json | Aborted exn | Polling

fun monitor_loop ::
  "python \<Rightarrow> runner \<Rightarrow> string \<Rightarrow> json \<Rightarrow> int \<Rightarrow> tick_env list \<Rightarrow> mon_state
     \<Rightarrow> outcome \<times> mon_state \<times> event list" where
  "monitor_loop py self dag_id dag_run_id interval [] st = (Polling, st, [])"
| "monitor_loop py self dag_id dag_run_id interval (env # envs) st =
     (case try_tick py self dag_id dag_run_id interval env st of
        (Inl e, evs) \<Rightarrow> (Aborted e, st, evs @ [PrintMonitorFailed e])
      | (Inr (Some state, st'), evs) \<Rightarrow> (Finished state, st', evs)
      | (Inr (None, st'), evs) \<Rightarrow>
          (case monitor_loop py self dag_id dag_run_id interval envs st' of
             (out, st'', evs') \<Rightarrow> (out, st'', evs @ evs')))"

definition monitor_dag ::
  "python \<Rightarrow> runner \<Rightarrow> string \<Rightarrow> json \<Rightarrow> int \<Rightarrow> tick_env list \<Rightarrow> outcome \<times> event list" where
  "monitor_dag py self dag_id dag_run_id interval envs =
     (case monitor_loop py self dag_id dag_run_id interval envs
             \<lparr>logged_tasks = {}, task_log_cutoffs = Map.empty\<rparr> of
        (out, st, evs) \<Rightarrow> (out, evs))"

section \<open>Authentication, trigger and the command line\<close>

text \<open>\<^verbatim>\<open>list_of_str\<close>: \<^verbatim>\<open>arg.split(',')\<close>.\<close>

fun list_of_str :: "string \<Rightarrow> string list" where
  "list_of_str [] = [[]]"
| "list_of_str (c # cs) =
     (if c = CHR '','' then [] # list_of_str cs
      else (case list_of_str cs of [] \<Rightarrow> [[c]] | x # xs \<Rightarrow> (c # x) # xs))"

text \<open>\<^verbatim>\<open>airflow_url.rstrip('/')\<close>.\<close>

definition rstrip_slash :: "string \<Rightarrow> string" where
  "rstrip_slash s = rev (dropWhile (\<lambda>c. c = CHR ''/'') (rev s))"

text \<open>\<^verbatim>\<open>_get_access_token\<close>: the one call made before the session has the Authorization
  header.\<close>

definition get_access_token :: "string \<Rightarrow> string \<Rightarrow> response \<Rightarrow> (exn + json) \<times> event list" where
  "get_access_token username password resp =
     (case bindE (fetch_json resp) (\<lambda>body. py_get body ''access_token'' JNull) of
        Inl e \<Rightarrow> (Inl (AuthError e), [Request (PostAuth username password)])
      | Inr token \<Rightarrow> (Inr token, [Request (PostAuth username password)]))"

text \<open>\<^verbatim>\<open>AirflowDagRunner.__init__\<close>.\<close>

definition init_runner ::
  "string \<Rightarrow> string \<Rightarrow> string \<Rightarrow> string list \<Rightarrow> response \<Rightarrow> (exn + runner) \<times> event list" where
  "init_runner url username password srcs resp =
     (case get_access_token username password resp of
        (Inl e, evs) \<Rightarrow> (Inl e, evs)
      | (Inr token, evs) \<Rightarrow>
          (Inr \<lparr>airflow_url = rstrip_slash url, log_sources = srcs, access_token = token\<rparr>, evs))"

definition trigger_dag ::
  "python \<Rightarrow> runner \<Rightarrow> string \<Rightarrow> json \<Rightarrow> response \<Rightarrow> (exn + json) \<times> event list" where
  "trigger_dag py self dag_id conf resp =
     (let req = Request (PostTrigger dag_id (if py_truthy conf then conf else JObj [])) in
      case bindE (fetch_json (session_call py self resp)) (\<lambda>body. py_get body ''dag_run_id'' JNull) of
        Inl e \<Rightarrow> (Inl (TriggerError e), [req])
      | Inr dag_run_id \<Rightarrow> (Inr dag_run_id, [req]))"

text \<open>
  The \<^verbatim>\<open>__main__\<close> block, lines 136 to 143, on the parsed arguments (\<^verbatim>\<open>--log_sources\<close> already
  through \<open>list_of_str\<close>) and on what the server answers. The exit code is 1 after
  \<^verbatim>\<open>exit(1)\<close>, 0 when the block runs to its end, and there is none while the monitor is polling.
\<close>

record args =
  arg_url :: string
  arg_dag :: string
  arg_user :: string
  arg_password :: string
  arg_interval :: int
  arg_log_sources :: "string list"

record world =
  auth_resp :: response
  trigger_resp :: response
  ticks :: "tick_env list"

definition main :: "python \<Rightarrow> args \<Rightarrow> world \<Rightarrow> int option \<times> event list" where
  "main py a w =
     (case init_runner (arg_url a) (arg_user a) (arg_password a) (arg_log_sources a) (auth_resp w) of
        (Inl e, evs) \<Rightarrow> (Some 1, evs @ [PrintFailed e])
      | (Inr self, evs) \<Rightarrow>
          (case trigger_dag py self (arg_dag a) JNull (trigger_resp w) of
             (Inl e, evs') \<Rightarrow> (Some 1, evs @ evs' @ [PrintFailed e])
           | (Inr dag_run_id, evs') \<Rightarrow>
               (case monitor_dag py self (arg_dag a) dag_run_id (arg_interval a) (ticks w) of
                  (out, evs'') \<Rightarrow>
                    (if out = Polling then None else Some 0,
                     evs @ evs' @ [PrintRunId dag_run_id] @ evs''))))"

section \<open>The vocabulary of the specification, and inputs to run the model on\<close>



text \<open>An interpreter for the runs below. They are all on ASCII text, where its tables are
  never consulted.\<close>

definition ex_py :: python where
  "ex_py = \<lparr>unicode_upper = (\<lambda>s. s), unicode_lower = (\<lambda>s. s), unicode_repr = (\<lambda>s. s)\<rparr>"

definition ex_runner :: "string list \<Rightarrow> runner" where
  "ex_runner srcs =
     \<lparr>airflow_url = ''http://localhost:8080'', log_sources = srcs, access_token = JStr ''token''\<rparr>"

definition ex_entry :: "string \<Rightarrow> string \<Rightarrow> string \<Rightarrow> string \<Rightarrow> json" where
  "ex_entry lg ts level event =
     JObj [(''timestamp'', JStr ts), (''logger'', JStr lg), (''level'', JStr level), (''event'', JStr event)]"


definition ex_logs :: "json list \<Rightarrow> response" where
  "ex_logs entries = Response 200 (Some (JObj [(''content'', JArr entries)]))"

definition ex_task :: "string \<Rightarrow> string \<Rightarrow> json" where
  "ex_task task_id state = JObj [(''task_id'', JStr task_id), (''state'', JStr state)]"

definition ex_tick :: "string \<Rightarrow> json list \<Rightarrow> response \<Rightarrow> tick_env" where
  "ex_tick state tasks logs =
     \<lparr>status_resp = Response 200 (Some (JObj [(''state'', JStr state)])),
      tasks_resp = Response 200 (Some (JObj [(''task_instances'', JArr tasks)])),
      log_resp = (\<lambda>i. logs)\<rparr>"

definition ex_state :: "(key \<times> json) list \<Rightarrow> mon_state" where
  "ex_state cutoffs = \<lparr>logged_tasks = {}, task_log_cutoffs = map_of cutoffs\<rparr>"

definition ex_init :: mon_state where
  "ex_init = \<lparr>logged_tasks = {}, task_log_cutoffs = Map.empty\<rparr>"

definition ex_args :: args where
  "ex_args = \<lparr>arg_url = ''http://localhost:8080/'', arg_dag = ''etl'', arg_user = ''admin'',
     arg_password = ''secret'', arg_interval = 5, arg_log_sources = list_of_str ''root,task''\<rparr>"

text \<open>A world in which the trigger and the monitor would succeed, whatever the
  authentication does.\<close>

definition ex_world :: "response \<Rightarrow> world" where
  "ex_world auth =
     \<lparr>auth_resp = auth,
      trigger_resp = Response 200 (Some (JObj [(''dag_run_id'', JStr ''r1'')])),
      ticks = [ex_tick ''success'' [] NoResponse]\<rparr>"

text \<open>
  To speak of cutoffs that do not decrease: the order on the cutoffs of the specification's
  data model (\<^verbatim>\<open>None\<close> below every string, strings in their order), the log answers all of
  whose entries have a string timestamp, and the effects that hold no diagnostic of the Log
  Tailer.
\<close>

definition str_or_none :: "json \<Rightarrow> bool" where
  "str_or_none c = (case c of JNull \<Rightarrow> True | JStr s \<Rightarrow> True | _ \<Rightarrow> False)"

definition cutoff_le :: "json \<Rightarrow> json \<Rightarrow> bool" where
  "cutoff_le a b =
     (case a of JNull \<Rightarrow> True
      | JStr s \<Rightarrow> (case b of JStr t \<Rightarrow> s \<le> t | _ \<Rightarrow> False)
      | _ \<Rightarrow> False)"

definition has_str_timestamp :: "json \<Rightarrow> bool" where
  "has_str_timestamp r = (case py_get r ''timestamp'' JNull of Inr (JStr t) \<Rightarrow> True | _ \<Rightarrow> False)"

definition str_timestamps :: "response \<Rightarrow> bool" where
  "str_timestamps resp =
     (case fetch_log_content resp of Inl e \<Rightarrow> True | Inr rs \<Rightarrow> list_all has_str_timestamp rs)"

definition no_log_failure :: "event list \<Rightarrow> bool" where
  "no_log_failure evs = list_all (\<lambda>ev. case ev of PrintLogsFailed t e \<Rightarrow> False | _ \<Rightarrow> True) evs"


definition completed_key :: "json \<Rightarrow> key option" where
  "completed_key task =
     (case bindE (py_get task ''task_id'' JNull) py_hash of
        Inl e \<Rightarrow> None
      | Inr k \<Rightarrow>
          (case py_get task ''state'' JNull of
             Inl e \<Rightarrow> None
           | Inr s \<Rightarrow> if s \<in> JStr ` completed_states then Some k else None))"


definition completed_keys :: "python \<Rightarrow> runner \<Rightarrow> tick_env \<Rightarrow> key set" where
  "completed_keys py self env =
     (case fetch_tasks py self env of
        Inl e \<Rightarrow> {}
      | Inr tasks \<Rightarrow> set (List.map_filter completed_key tasks))"
section \<open>Exceptions as values\<close>

lemma bindE_Inl [simp]: "bindE (Inl e) f = Inl e"
  by (simp add: bindE_def)

lemma bindE_Inr [simp]: "bindE (Inr x) f = f x"
  by (simp add: bindE_def)

lemma bindE_eq_Inr: "bindE m f = Inr y \<longleftrightarrow> (\<exists>x. m = Inr x \<and> f x = Inr y)"
  by (cases m) simp_all




lemma in_completed_str [simp]: "in_completed (JStr s) = Inr (s \<in> completed_states)"
  by (auto simp: in_completed_def)

lemma session_call_ok: "header_ok py (access_token self) \<Longrightarrow> session_call py self resp = resp"
  by (simp add: session_call_def)

lemma ex_header_ok: "header_ok py (access_token (ex_runner srcs))"
  by (simp add: header_ok_def ex_runner_def)

lemma ex_session_call [simp]: "session_call py (ex_runner srcs) resp = resp"
  by (simp add: session_call_ok ex_header_ok)

section \<open>The Log Tailer\<close>

subsection \<open>A failing call\<close>

text \<open>
  Claim C10. Whenever an exception is raised anywhere in the body of \<^verbatim>\<open>_print_task_logs\<close>
  (by the request, the status check, the decoding, the filter, or while a kept entry is
  rendered, after the lines of the entries before it were printed), the single handler
  prints the diagnostic naming the task after what was printed already, and the call returns
  \<^verbatim>\<open>None\<close>; the Monitor, processing a task that is running or completed and not yet logged,
  stores that \<^verbatim>\<open>None\<close> as the new cutoff of the task.
\<close>

theorem print_task_logs_exception:
  "(try_print_task_logs py self dag_id dag_run_id task_id cutoff resp = (Inl e, evs) \<longrightarrow>
      print_task_logs py self dag_id dag_run_id task_id cutoff resp
        = (JNull, evs @ [PrintLogsFailed task_id e]))
   \<and> (try_print_task_logs py self dag_id dag_run_id task_id cutoff resp = (Inl e, evs)
        \<and> py_get task ''task_id'' JNull = Inr task_id \<and> py_hash task_id = Inr k
        \<and> k \<notin> logged_tasks st \<and> get_cutoff st k = cutoff \<and> log_resp env i = resp
        \<and> py_get task ''state'' JNull = Inr (JStr s) \<and> s \<in> running_states \<union> completed_states \<longrightarrow>
      (\<exists>st'. task_step py self dag_id dag_run_id env i task st
               = (Inr st', evs @ [PrintLogsFailed task_id e])
             \<and> task_log_cutoffs st' k = Some JNull))"
  by (auto simp: print_task_logs_def task_step_def)

text \<open>The second entry has no \<^verbatim>\<open>level\<close>: its rendering raises after the first line is out, and
  the cutoff stored for the task goes from a timestamp to \<^verbatim>\<open>None\<close>.\<close>

theorem print_task_logs_exception_witness:
  "print_task_logs ex_py (ex_runner [''task'']) ''etl'' (JStr ''r1'') (JStr ''t1'') (JStr ''2023-12-31T23:59:59'')
      (ex_logs [ex_entry ''task'' ''2024-01-01T00:00:00'' ''info'' ''hello'',
                JObj [(''timestamp'', JStr ''2024-01-01T00:00:05''), (''logger'', JStr ''task'')]])
     = (JNull, [Request (GetLogs ''etl'' (JStr ''r1'') (JStr ''t1'')),
                PrintLog ''2024-01-01T00:00:00 - t1: [INFO] hello'',
                PrintLogsFailed (JStr ''t1'') AttributeError])
   \<and> (\<exists>st'. task_step ex_py (ex_runner [''task'']) ''etl'' (JStr ''r1'')
               (ex_tick ''running'' [ex_task ''t1'' ''running'']
                  (ex_logs [ex_entry ''task'' ''2024-01-01T00:00:00'' ''info'' ''hello'',
                            JObj [(''timestamp'', JStr ''2024-01-01T00:00:05''), (''logger'', JStr ''task'')]]))
               0 (ex_task ''t1'' ''running'') (ex_state [(KStr ''t1'', JStr ''2023-12-31T23:59:59'')])
             = (Inr st', [Request (GetLogs ''etl'' (JStr ''r1'') (JStr ''t1'')),
                          PrintLog ''2024-01-01T00:00:00 - t1: [INFO] hello'',
                          PrintLogsFailed (JStr ''t1'') AttributeError])
           \<and> task_log_cutoffs st' (KStr ''t1'') = Some JNull)"
proof -
  let ?resp = "ex_logs [ex_entry ''task'' ''2024-01-01T00:00:00'' ''info'' ''hello'',
                JObj [(''timestamp'', JStr ''2024-01-01T00:00:05''), (''logger'', JStr ''task'')]]"
  have h: "try_print_task_logs ex_py (ex_runner [''task'']) ''etl'' (JStr ''r1'') (JStr ''t1'')
             (JStr ''2023-12-31T23:59:59'') ?resp
           = (Inl AttributeError, [Request (GetLogs ''etl'' (JStr ''r1'') (JStr ''t1'')),
                PrintLog ''2024-01-01T00:00:00 - t1: [INFO] hello''])"
    by code_simp
  have g: "py_get (ex_task ''t1'' ''running'') ''task_id'' JNull = Inr (JStr ''t1'')
         \<and> py_hash (JStr ''t1'') = Inr (KStr ''t1'')
         \<and> KStr ''t1'' \<notin> logged_tasks (ex_state [(KStr ''t1'', JStr ''2023-12-31T23:59:59'')])
         \<and> get_cutoff (ex_state [(KStr ''t1'', JStr ''2023-12-31T23:59:59'')]) (KStr ''t1'')
             = JStr ''2023-12-31T23:59:59''
         \<and> log_resp (ex_tick ''running'' [ex_task ''t1'' ''running''] ?resp) 0 = ?resp
         \<and> py_get (ex_task ''t1'' ''running'') ''state'' JNull = Inr (JStr ''running'')
         \<and> ''running'' \<in> running_states \<union> completed_states"
    by (simp add: ex_task_def ex_state_def ex_tick_def get_cutoff_def running_states_def)
  show ?thesis
    using h g
      print_task_logs_exception [where self = "ex_runner [''task'']" and dag_id = "''etl''"
        and dag_run_id = "JStr ''r1''" and task_id = "JStr ''t1''"
        and cutoff = "JStr ''2023-12-31T23:59:59''" and resp = ?resp and e = AttributeError
        and evs = "[Request (GetLogs ''etl'' (JStr ''r1'') (JStr ''t1'')),
                PrintLog ''2024-01-01T00:00:00 - t1: [INFO] hello'']"
        and task = "ex_task ''t1'' ''running''" and k = "KStr ''t1''"
        and st = "ex_state [(KStr ''t1'', JStr ''2023-12-31T23:59:59'')]"
        and env = "ex_tick ''running'' [ex_task ''t1'' ''running''] ?resp" and i = 0
        and s = "''running''"]
    by simp
qed

text \<open>
  Claim C1 says that a call whose log fetch fails returns the previous cutoff unchanged.
  The handler has no \<^verbatim>\<open>return\<close>: with the cutoff \<^verbatim>\<open>2024-01-01T00:00:00\<close> and a request that
  gets no response, the failure is caught and the diagnostic printed, but the call returns
  \<^verbatim>\<open>None\<close>, and in the Monitor the stored cutoff of the task is \<^verbatim>\<open>None\<close> afterwards
  while the tick goes on.
\<close>

theorem print_task_logs_fetch_failure_loses_cutoff:
  "print_task_logs ex_py (ex_runner [''task'']) ''etl'' (JStr ''r1'') (JStr ''t1'') (JStr ''2024-01-01T00:00:00'')
      NoResponse
     = (JNull, [Request (GetLogs ''etl'' (JStr ''r1'') (JStr ''t1'')),
                PrintLogsFailed (JStr ''t1'') SessionError])
   \<and> (case monitor_loop ex_py (ex_runner [''task'']) ''etl'' (JStr ''r1'') 5
             [ex_tick ''running'' [ex_task ''t1'' ''running''] NoResponse]
             (ex_state [(KStr ''t1'', JStr ''2024-01-01T00:00:00'')]) of
        (out, st', evs) \<Rightarrow>
          out = Polling \<and> get_cutoff st' (KStr ''t1'') = JNull
          \<and> evs = [Request (GetStatus ''etl'' (JStr ''r1'')), Request (GetTasks ''etl'' (JStr ''r1'')),
                   Request (GetLogs ''etl'' (JStr ''r1'') (JStr ''t1'')),
                   PrintLogsFailed (JStr ''t1'') SessionError, Sleep 5])"
  by (simp add: print_task_logs_def try_print_task_logs_def fetch_filtered_logs_def
      fetch_log_content_def try_tick_def fetch_state_def fetch_tasks_def task_step_def
      time_sleep_def ex_tick_def ex_task_def ex_state_def get_cutoff_def running_states_def
      completed_states_def)

subsection \<open>The filter\<close>

lemma filter_logs_Inr:
  "filter_logs srcs cutoff rs = Inr ks \<Longrightarrow> ks = filter (\<lambda>r. keep_entry srcs cutoff r = Inr True) rs"
proof (induction rs arbitrary: ks)
  case Nil
  then show ?case by simp
next
  case (Cons r rs)
  then show ?case by (auto simp: bindE_eq_Inr split: if_splits)
qed





subsection \<open>The lines printed\<close>















subsection \<open>The value returned\<close>

lemma try_print_task_logs_Inr:
  assumes "try_print_task_logs py self dag_id dag_run_id task_id cutoff resp = (Inr v, evs)"
  shows "\<exists>kept. fetch_filtered_logs py self cutoff resp = Inr kept
            \<and> (if kept = [] then v = cutoff else py_item (last kept) ''timestamp'' = Inr v)"
  using assms
  by (auto simp: try_print_task_logs_def Let_def split: sum.splits prod.splits option.splits if_splits)




section \<open>The Monitor\<close>

subsection \<open>Errors of a tick\<close>

text \<open>Two runs of the loop whose ticks differ in the answers to the log requests only go
  through the same \<^verbatim>\<open>logged_tasks\<close>, whatever the cutoffs are.\<close>

lemma task_step_same_logged:
  assumes "logged_tasks st1 = logged_tasks st2"
  shows "rel_sum (=) (\<lambda>a b. logged_tasks a = logged_tasks b)
           (fst (task_step py self dag_id dag_run_id env1 i task st1))
           (fst (task_step py self dag_id dag_run_id env2 i task st2))"
  using assms
  by (auto simp: task_step_def bindE_def split: sum.splits prod.splits)

lemma tasks_loop_same_logged:
  assumes "logged_tasks st1 = logged_tasks st2"
  shows "rel_sum (=) (\<lambda>a b. logged_tasks a = logged_tasks b)
           (fst (tasks_loop py self dag_id dag_run_id env1 i tasks st1))
           (fst (tasks_loop py self dag_id dag_run_id env2 i tasks st2))"
  using assms
proof (induction tasks arbitrary: i st1 st2)
  case Nil
  then show ?case by simp
next
  case (Cons task tasks)
  obtain r1 evs1 r2 evs2
    where t1: "task_step py self dag_id dag_run_id env1 i task st1 = (r1, evs1)"
      and t2: "task_step py self dag_id dag_run_id env2 i task st2 = (r2, evs2)"
    by fastforce
  have rel: "rel_sum (=) (\<lambda>a b. logged_tasks a = logged_tasks b) r1 r2"
    using task_step_same_logged [OF Cons.prems, of py self dag_id dag_run_id env1 i task env2] t1 t2
    by simp
  show ?case
  proof (cases r1)
    case (Inl e)
    with rel t1 t2 show ?thesis by (cases r2) simp_all
  next
    case (Inr a)
    with rel obtain b where b: "r2 = Inr b" "logged_tasks a = logged_tasks b"
      by (cases r2) simp_all
    from Cons.IH [OF b(2), of "Suc i"] Inr b(1) t1 t2 show ?thesis
      by (auto split: prod.splits)
  qed
qed

lemma try_tick_same_logged:
  assumes "logged_tasks st1 = logged_tasks st2"
    and "status_resp env1 = status_resp env2" and "tasks_resp env1 = tasks_resp env2"
  shows "rel_sum (=) (\<lambda>a b. fst a = fst b \<and> logged_tasks (snd a) = logged_tasks (snd b))
           (fst (try_tick py self dag_id dag_run_id interval env1 st1))
           (fst (try_tick py self dag_id dag_run_id interval env2 st2))"
proof -
  have fs: "fetch_state py self env1 = fetch_state py self env2" and ft: "fetch_tasks py self env1 = fetch_tasks py self env2"
    using assms(2,3) by (simp_all add: fetch_state_def fetch_tasks_def)
  show ?thesis
  proof (cases "fetch_state py self env2")
    case (Inl e)
    with fs show ?thesis by (simp add: try_tick_def)
  next
    case state: (Inr state)
    show ?thesis
    proof (cases "fetch_tasks py self env2")
      case (Inl e)
      with fs ft state show ?thesis by (simp add: try_tick_def)
    next
      case (Inr tasks)
      obtain r1 evs1 r2 evs2
        where t1: "tasks_loop py self dag_id dag_run_id env1 0 tasks st1 = (r1, evs1)"
          and t2: "tasks_loop py self dag_id dag_run_id env2 0 tasks st2 = (r2, evs2)"
        by fastforce
      have rel: "rel_sum (=) (\<lambda>a b. logged_tasks a = logged_tasks b) r1 r2"
        using tasks_loop_same_logged [OF assms(1), of py self dag_id dag_run_id env1 0 tasks env2] t1 t2
        by simp
      show ?thesis
      proof (cases r1)
        case (Inl e)
        with rel fs ft state Inr t1 t2 show ?thesis
          by (cases r2) (simp_all add: try_tick_def)
      next
        case a: (Inr a)
        with rel obtain b where b: "r2 = Inr b" "logged_tasks a = logged_tasks b"
          by (cases r2) simp_all
        with a fs ft state Inr t1 t2 show ?thesis
          by (cases "in_completed state") (simp_all add: try_tick_def Let_def split: sum.splits)
      qed
    qed
  qed
qed

lemma monitor_loop_same_outcome:
  assumes "logged_tasks st1 = logged_tasks st2"
  shows "fst (monitor_loop py self dag_id dag_run_id interval (map (\<lambda>env. env\<lparr>log_resp := f env\<rparr>) envs) st1)
       = fst (monitor_loop py self dag_id dag_run_id interval envs st2)"
  using assms
proof (induction envs arbitrary: st1 st2)
  case Nil
  then show ?case by simp
next
  case (Cons env envs)
  obtain r1 evs1 r2 evs2
    where t1: "try_tick py self dag_id dag_run_id interval (env\<lparr>log_resp := f env\<rparr>) st1 = (r1, evs1)"
      and t2: "try_tick py self dag_id dag_run_id interval env st2 = (r2, evs2)"
    by fastforce
  have rel: "rel_sum (=) (\<lambda>a b. fst a = fst b \<and> logged_tasks (snd a) = logged_tasks (snd b)) r1 r2"
    using try_tick_same_logged [OF Cons.prems, of "env\<lparr>log_resp := f env\<rparr>" env py self dag_id dag_run_id interval]
      t1 t2 by simp
  show ?case
  proof (cases r1)
    case (Inl e)
    with rel t1 t2 show ?thesis by (cases r2) simp_all
  next
    case (Inr a)
    with rel obtain b where b: "r2 = Inr b" "fst a = fst b" "logged_tasks (snd a) = logged_tasks (snd b)"
      by (cases r2) simp_all
    obtain fin sa where a: "a = (fin, sa)" by (cases a)
    with b obtain sb where sb: "b = (fin, sb)" "logged_tasks sa = logged_tasks sb"
      by (cases b) simp
    from Cons.IH [OF sb(2)] Inr a b(1) sb(1) t1 t2 show ?thesis
      by (cases fin) (auto split: prod.splits)
  qed
qed

text \<open>
  Claim C4. In any tick, an error raised while fetching the run status (lines 61 to 63) or
  the task list (lines 66 to 68) is caught, the diagnostic is printed, and the loop ends at
  once: no further request is sent, the ticks that would follow are never reached. The
  answers to the log requests, failures included, have no part in how the loop ends: with
  any other answers in their place the loop ends the same way.
\<close>

theorem monitor_fetch_error_aborts:
  "(fetch_state py self env = Inl e \<longrightarrow>
      monitor_loop py self dag_id dag_run_id interval (env # envs) st
        = (Aborted e, st, [Request (GetStatus dag_id dag_run_id), PrintMonitorFailed e]))
   \<and> (fetch_state py self env = Inr state \<and> fetch_tasks py self env = Inl e \<longrightarrow>
      monitor_loop py self dag_id dag_run_id interval (env # envs) st
        = (Aborted e, st, [Request (GetStatus dag_id dag_run_id), Request (GetTasks dag_id dag_run_id),
                           PrintMonitorFailed e]))
   \<and> fst (monitor_loop py self dag_id dag_run_id interval (map (\<lambda>env. env\<lparr>log_resp := f env\<rparr>) envs) st)
       = fst (monitor_loop py self dag_id dag_run_id interval envs st)"
proof (intro conjI impI)
  assume "fetch_state py self env = Inl e"
  then show "monitor_loop py self dag_id dag_run_id interval (env # envs) st
        = (Aborted e, st, [Request (GetStatus dag_id dag_run_id), PrintMonitorFailed e])"
    by (simp add: try_tick_def)
next
  assume "fetch_state py self env = Inr state \<and> fetch_tasks py self env = Inl e"
  then show "monitor_loop py self dag_id dag_run_id interval (env # envs) st
        = (Aborted e, st, [Request (GetStatus dag_id dag_run_id), Request (GetTasks dag_id dag_run_id),
                           PrintMonitorFailed e])"
    by (simp add: try_tick_def)
next
  show "fst (monitor_loop py self dag_id dag_run_id interval (map (\<lambda>env. env\<lparr>log_resp := f env\<rparr>) envs) st)
       = fst (monitor_loop py self dag_id dag_run_id interval envs st)"
    by (rule monitor_loop_same_outcome) simp
qed


text \<open>A status request answered 503, and a task list request without response, each before a
  tick that would have finished the run; and a run that finishes with \<^verbatim>\<open>success\<close> though no
  log request gets a response.\<close>

theorem monitor_fetch_error_aborts_witness:
  "monitor_loop ex_py (ex_runner [''task'']) ''etl'' (JStr ''r1'') 5
      [\<lparr>status_resp = Response 503 None, tasks_resp = NoResponse, log_resp = (\<lambda>i. NoResponse)\<rparr>,
       ex_tick ''success'' [] NoResponse] ex_init
     = (Aborted (HTTPError 503), ex_init,
        [Request (GetStatus ''etl'' (JStr ''r1'')), PrintMonitorFailed (HTTPError 503)])
   \<and> monitor_loop ex_py (ex_runner [''task'']) ''etl'' (JStr ''r1'') 5
      [\<lparr>status_resp = Response 200 (Some (JObj [(''state'', JStr ''running'')])),
        tasks_resp = NoResponse, log_resp = (\<lambda>i. NoResponse)\<rparr>,
       ex_tick ''success'' [] NoResponse] ex_init
     = (Aborted SessionError, ex_init,
        [Request (GetStatus ''etl'' (JStr ''r1'')), Request (GetTasks ''etl'' (JStr ''r1'')),
         PrintMonitorFailed SessionError])
   \<and> fst (monitor_loop ex_py (ex_runner [''task'']) ''etl'' (JStr ''r1'') 5
            (map (\<lambda>env. env\<lparr>log_resp := (\<lambda>i. NoResponse)\<rparr>)
               [ex_tick ''running'' [ex_task ''t1'' ''running'']
                  (ex_logs [ex_entry ''task'' ''2024-01-01T00:00:00'' ''info'' ''hello'']),
                ex_tick ''success'' [ex_task ''t1'' ''success'']
                  (ex_logs [ex_entry ''task'' ''2024-01-01T00:00:00'' ''info'' ''hello''])]) ex_init)
     = Finished (JStr ''success'')"
proof -
  let ?e1 = "\<lparr>status_resp = Response 503 None, tasks_resp = NoResponse, log_resp = (\<lambda>i. NoResponse)\<rparr>"
  let ?e2 = "\<lparr>status_resp = Response 200 (Some (JObj [(''state'', JStr ''running'')])),
        tasks_resp = NoResponse, log_resp = (\<lambda>i. NoResponse)\<rparr>"
  let ?envs = "[ex_tick ''running'' [ex_task ''t1'' ''running'']
                  (ex_logs [ex_entry ''task'' ''2024-01-01T00:00:00'' ''info'' ''hello'']),
                ex_tick ''success'' [ex_task ''t1'' ''success'']
                  (ex_logs [ex_entry ''task'' ''2024-01-01T00:00:00'' ''info'' ''hello''])]"
  have h1: "fetch_state ex_py (ex_runner [''task'']) ?e1 = Inl (HTTPError 503)"
    by (simp add: fetch_state_def)
  have h2: "fetch_state ex_py (ex_runner [''task'']) ?e2 = Inr (JStr ''running'') \<and> fetch_tasks ex_py (ex_runner [''task'']) ?e2 = Inl SessionError"
    by (simp add: fetch_state_def fetch_tasks_def)
  have h3: "fst (monitor_loop ex_py (ex_runner [''task'']) ''etl'' (JStr ''r1'') 5 ?envs ex_init)
     = Finished (JStr ''success'')"
    by code_simp
  show ?thesis
    using h1 h2 h3
      monitor_fetch_error_aborts [where env = ?e1 and e = "HTTPError 503"
        and self = "ex_runner [''task'']" and dag_id = "''etl''" and dag_run_id = "JStr ''r1''"
        and interval = 5 and envs = "[ex_tick ''success'' [] NoResponse]" and st = ex_init
        and state = JNull and f = "\<lambda>env i. NoResponse"]
      monitor_fetch_error_aborts [where env = ?e2 and e = SessionError
        and self = "ex_runner [''task'']" and dag_id = "''etl''" and dag_run_id = "JStr ''r1''"
        and interval = 5 and envs = "[ex_tick ''success'' [] NoResponse]" and st = ex_init
        and state = "JStr ''running''" and f = "\<lambda>env i. NoResponse"]
      monitor_fetch_error_aborts [where env = ?e1 and e = "HTTPError 503"
        and self = "ex_runner [''task'']" and dag_id = "''etl''" and dag_run_id = "JStr ''r1''"
        and interval = 5 and envs = ?envs and st = ex_init
        and state = JNull and f = "\<lambda>env i. NoResponse"]
    by simp
qed

subsection \<open>The end of the loop\<close>

lemma in_completed_Inr: "in_completed x = Inr c \<Longrightarrow> c = (x \<in> JStr ` completed_states)"
  by (cases x) (auto simp: in_completed_def)

lemma try_tick_Some:
  assumes "try_tick py self dag_id dag_run_id interval env st = (Inr (Some s, st'), evs)"
  shows "fetch_state py self env = Inr s \<and> s \<in> JStr ` completed_states \<and> evs \<noteq> [] \<and> last evs = PrintFinished s"
  using assms
  by (auto simp: try_tick_def Let_def bindE_eq_Inr time_sleep_def dest!: in_completed_Inr
      split: sum.splits prod.splits if_splits)








subsection \<open>The logged tasks\<close>

lemma print_task_logs_request:
  "\<exists>evs'. snd (print_task_logs py self dag_id dag_run_id task_id cutoff resp)
     = Request (GetLogs dag_id dag_run_id task_id) # evs'"
  by (auto simp: print_task_logs_def try_print_task_logs_def Let_def
      split: sum.splits prod.splits option.splits)

lemma task_step_logged_mono:
  "task_step py self dag_id dag_run_id env i task st = (Inr st', evs) \<Longrightarrow>
     logged_tasks st \<subseteq> logged_tasks st'"
  by (auto simp: task_step_def bindE_eq_Inr split: sum.splits prod.splits if_splits)

lemma tasks_loop_logged_mono:
  "tasks_loop py self dag_id dag_run_id env i tasks st = (Inr st', evs) \<Longrightarrow>
     logged_tasks st \<subseteq> logged_tasks st'"
proof (induction tasks arbitrary: i st evs)
  case Nil
  then show ?case by simp
next
  case (Cons task tasks)
  from Cons.prems obtain st1 evs1 evs2
    where s: "task_step py self dag_id dag_run_id env i task st = (Inr st1, evs1)"
      and l: "tasks_loop py self dag_id dag_run_id env (Suc i) tasks st1 = (Inr st', evs2)"
    by (auto split: sum.splits prod.splits)
  from task_step_logged_mono [OF s] Cons.IH [OF l] show ?case by blast
qed

lemma try_tick_logged_mono:
  "try_tick py self dag_id dag_run_id interval env st = (Inr (fin, st'), evs) \<Longrightarrow>
     logged_tasks st \<subseteq> logged_tasks st'"
  by (auto simp: try_tick_def Let_def bindE_eq_Inr split: sum.splits prod.splits if_splits
      dest: tasks_loop_logged_mono)

lemma monitor_loop_logged_mono:
  "monitor_loop py self dag_id dag_run_id interval envs st = (out, st', evs) \<Longrightarrow>
     logged_tasks st \<subseteq> logged_tasks st'"
proof (induction envs arbitrary: st evs)
  case Nil
  then show ?case by simp
next
  case (Cons env envs)
  obtain r evs1 where t: "try_tick py self dag_id dag_run_id interval env st = (r, evs1)"
    by fastforce
  show ?case
  proof (cases r)
    case (Inl e)
    with t Cons.prems show ?thesis by simp
  next
    case (Inr a)
    obtain fin st1 where a: "a = (fin, st1)" by (cases a)
    from try_tick_logged_mono t Inr a have m: "logged_tasks st \<subseteq> logged_tasks st1" by blast
    show ?thesis
    proof (cases fin)
      case (Some s)
      with t Inr a Cons.prems m show ?thesis by simp
    next
      case None
      with t Inr a Cons.prems obtain evs2
        where "monitor_loop py self dag_id dag_run_id interval envs st1 = (out, st', evs2)"
        by (auto split: prod.splits)
      from Cons.IH [OF this] m show ?thesis by blast
    qed
  qed
qed

lemma print_items_events: "print_items py task_id xs = (r, evs) \<Longrightarrow> Request q \<notin> set evs"
  by (induction xs arbitrary: r evs) (auto split: sum.splits prod.splits)

lemma print_task_logs_events:
  "print_task_logs py self dag_id dag_run_id task_id cutoff resp = (c, evs) \<Longrightarrow>
     \<exists>evs'. evs = Request (GetLogs dag_id dag_run_id task_id) # evs' \<and> (\<forall>q. Request q \<notin> set evs')"
  by (auto simp: print_task_logs_def try_print_task_logs_def Let_def
      split: sum.splits prod.splits option.splits dest: print_items_events)

lemma task_step_requests:
  assumes "Request (GetLogs d r t) \<in> set (snd (task_step py self dag_id dag_run_id env i task st))"
    and "py_hash t = Inr k"
  shows "k \<notin> logged_tasks st"
  using assms
  by (auto simp: task_step_def bindE_def split: sum.splits prod.splits if_splits
      dest!: print_task_logs_events)

lemma task_step_logged_eq:
  assumes "task_step py self dag_id dag_run_id env i task st = (Inr st', evs)"
  shows "logged_tasks st' = logged_tasks st \<union> set_option (completed_key task)"
  using assms
  by (auto simp: task_step_def completed_key_def bindE_eq_Inr
      split: sum.splits prod.splits if_splits dest!: in_completed_Inr)

lemma task_step_added:
  assumes "task_step py self dag_id dag_run_id env i task st = (Inr st', evs)"
    and "k \<in> logged_tasks st'" and "k \<notin> logged_tasks st"
  shows "\<exists>tid. py_hash tid = Inr k \<and> Request (GetLogs dag_id dag_run_id tid) \<in> set evs"
  using assms
  by (auto simp: task_step_def bindE_eq_Inr
      split: sum.splits prod.splits if_splits dest!: in_completed_Inr print_task_logs_events)

lemma task_step_requests':
  assumes "task_step py self dag_id dag_run_id env i task st = (r0, evs)"
    and "Request (GetLogs d r t) \<in> set evs" and "py_hash t = Inr k"
  shows "k \<notin> logged_tasks st"
  using task_step_requests [of d r t py self dag_id dag_run_id env i task st k] assms by simp

lemma tasks_loop_requests:
  assumes "tasks_loop py self dag_id dag_run_id env i tasks st = (r0, evs)"
    and "Request (GetLogs d r t) \<in> set evs" and "py_hash t = Inr k"
  shows "k \<notin> logged_tasks st"
  using assms
proof (induction tasks arbitrary: i st r0 evs)
  case Nil
  then show ?case by simp
next
  case (Cons task tasks)
  obtain r1 evs1 where s: "task_step py self dag_id dag_run_id env i task st = (r1, evs1)"
    by fastforce
  show ?case
  proof (cases r1)
    case (Inl e)
    with s Cons.prems(1,2) have "Request (GetLogs d r t) \<in> set evs1" by simp
    from task_step_requests' [OF s this Cons.prems(3)] show ?thesis .
  next
    case (Inr st1)
    obtain r2 evs2 where l: "tasks_loop py self dag_id dag_run_id env (Suc i) tasks st1 = (r2, evs2)"
      by fastforce
    with s Inr Cons.prems(1,2)
    have "Request (GetLogs d r t) \<in> set evs1 \<or> Request (GetLogs d r t) \<in> set evs2"
      by auto
    then show ?thesis
    proof
      assume "Request (GetLogs d r t) \<in> set evs1"
      from task_step_requests' [OF s this Cons.prems(3)] show ?thesis .
    next
      assume "Request (GetLogs d r t) \<in> set evs2"
      from Cons.IH [OF l this Cons.prems(3)] have "k \<notin> logged_tasks st1" .
      with task_step_logged_mono s Inr show ?thesis by blast
    qed
  qed
qed

lemma tasks_loop_logged_eq:
  assumes "tasks_loop py self dag_id dag_run_id env i tasks st = (Inr st', evs)"
  shows "logged_tasks st' = logged_tasks st \<union> set (List.map_filter completed_key tasks)"
  using assms
proof (induction tasks arbitrary: i st evs)
  case Nil
  then show ?case by (simp add: map_filter_simps)
next
  case (Cons task tasks)
  from Cons.prems obtain st1 evs1 evs2
    where s: "task_step py self dag_id dag_run_id env i task st = (Inr st1, evs1)"
      and l: "tasks_loop py self dag_id dag_run_id env (Suc i) tasks st1 = (Inr st', evs2)"
    by (auto split: sum.splits prod.splits)
  from task_step_logged_eq [OF s] Cons.IH [OF l] show ?case
    by (auto simp: map_filter_simps split: option.splits)
qed

lemma tasks_loop_added:
  assumes "tasks_loop py self dag_id dag_run_id env i tasks st = (Inr st', evs)"
    and "k \<in> logged_tasks st'" and "k \<notin> logged_tasks st"
  shows "\<exists>tid. py_hash tid = Inr k \<and> Request (GetLogs dag_id dag_run_id tid) \<in> set evs"
  using assms
proof (induction tasks arbitrary: i st evs)
  case Nil
  then show ?case by simp
next
  case (Cons task tasks)
  from Cons.prems(1) obtain st1 evs1 evs2
    where s: "task_step py self dag_id dag_run_id env i task st = (Inr st1, evs1)"
      and l: "tasks_loop py self dag_id dag_run_id env (Suc i) tasks st1 = (Inr st', evs2)"
      and e: "evs = evs1 @ evs2"
    by (auto split: sum.splits prod.splits)
  show ?case
  proof (cases "k \<in> logged_tasks st1")
    case True
    from task_step_added [OF s True Cons.prems(3)] e show ?thesis by auto
  next
    case False
    from Cons.IH [OF l Cons.prems(2) False] e show ?thesis by auto
  qed
qed

lemma try_tick_events:
  assumes "try_tick py self dag_id dag_run_id interval env st = (r0, evs)"
    and "Request (GetLogs d r t) \<in> set evs"
  shows "\<exists>tasks r1 evs1. tasks_loop py self dag_id dag_run_id env 0 tasks st = (r1, evs1)
           \<and> Request (GetLogs d r t) \<in> set evs1"
  using assms
  by (auto simp: try_tick_def Let_def split: sum.splits prod.splits if_splits) blast+

lemma try_tick_requests:
  assumes "try_tick py self dag_id dag_run_id interval env st = (r0, evs)"
    and "Request (GetLogs d r t) \<in> set evs" and "py_hash t = Inr k"
  shows "k \<notin> logged_tasks st"
  using try_tick_events [OF assms(1,2)] tasks_loop_requests assms(3) by blast

lemma try_tick_Inr:
  assumes "try_tick py self dag_id dag_run_id interval env st = (Inr (fin, st'), evs)"
  shows "\<exists>tasks evs1. fetch_tasks py self env = Inr tasks
           \<and> tasks_loop py self dag_id dag_run_id env 0 tasks st = (Inr st', evs1)
           \<and> set evs1 \<subseteq> set evs"
  using assms
  by (auto simp: try_tick_def Let_def bindE_eq_Inr split: sum.splits prod.splits if_splits)

lemma try_tick_logged_eq:
  assumes "try_tick py self dag_id dag_run_id interval env st = (Inr (fin, st'), evs)"
  shows "logged_tasks st' = logged_tasks st \<union> completed_keys py self env"
  using try_tick_Inr [OF assms] tasks_loop_logged_eq by (fastforce simp: completed_keys_def)

lemma try_tick_added:
  assumes "try_tick py self dag_id dag_run_id interval env st = (Inr (fin, st'), evs)"
    and "k \<in> logged_tasks st'" and "k \<notin> logged_tasks st"
  shows "\<exists>tid. py_hash tid = Inr k \<and> Request (GetLogs dag_id dag_run_id tid) \<in> set evs"
proof -
  from try_tick_Inr [OF assms(1)] obtain tasks evs1
    where l: "tasks_loop py self dag_id dag_run_id env 0 tasks st = (Inr st', evs1)"
      and e: "set evs1 \<subseteq> set evs"
    by blast
  from tasks_loop_added [OF l assms(2,3)] e show ?thesis by blast
qed

lemma monitor_loop_Cons:
  assumes "monitor_loop py self dag_id dag_run_id interval (env # envs) st = (out, st', evs)"
  obtains (Aborted) e evs1 where "try_tick py self dag_id dag_run_id interval env st = (Inl e, evs1)"
      "out = Aborted e" "st' = st" "evs = evs1 @ [PrintMonitorFailed e]"
    | (Finished) s where "try_tick py self dag_id dag_run_id interval env st = (Inr (Some s, st'), evs)"
      "out = Finished s"
    | (Next) st1 evs1 evs2 where "try_tick py self dag_id dag_run_id interval env st = (Inr (None, st1), evs1)"
      "monitor_loop py self dag_id dag_run_id interval envs st1 = (out, st', evs2)" "evs = evs1 @ evs2"
  using assms
  by (auto split: sum.splits prod.splits option.splits)

lemma monitor_loop_requests:
  assumes "monitor_loop py self dag_id dag_run_id interval envs st = (out, st', evs)"
    and "Request (GetLogs d r t) \<in> set evs" and "py_hash t = Inr k"
  shows "k \<notin> logged_tasks st"
  using assms
proof (induction envs arbitrary: st evs)
  case Nil
  then show ?case by simp
next
  case (Cons env envs)
  from Cons.prems(1) show ?case
  proof (cases rule: monitor_loop_Cons)
    case (Aborted e evs1)
    with Cons.prems(2) have "Request (GetLogs d r t) \<in> set evs1" by simp
    from try_tick_requests [OF Aborted(1) this Cons.prems(3)] show ?thesis .
  next
    case (Finished s)
    from try_tick_requests [OF Finished(1) Cons.prems(2,3)] show ?thesis .
  next
    case (Next st1 evs1 evs2)
    with Cons.prems(2)
    have "Request (GetLogs d r t) \<in> set evs1 \<or> Request (GetLogs d r t) \<in> set evs2" by auto
    then show ?thesis
    proof
      assume "Request (GetLogs d r t) \<in> set evs1"
      from try_tick_requests [OF Next(1) this Cons.prems(3)] show ?thesis .
    next
      assume "Request (GetLogs d r t) \<in> set evs2"
      from Cons.IH [OF Next(2) this Cons.prems(3)] have "k \<notin> logged_tasks st1" .
      with try_tick_logged_mono [OF Next(1)] show ?thesis by blast
    qed
  qed
qed

lemma monitor_loop_logged_sub:
  assumes "monitor_loop py self dag_id dag_run_id interval envs st = (out, st', evs)"
  shows "logged_tasks st' \<subseteq> logged_tasks st \<union> (\<Union>env\<in>set envs. completed_keys py self env)"
  using assms
proof (induction envs arbitrary: st evs)
  case Nil
  then show ?case by simp
next
  case (Cons env envs)
  from Cons.prems show ?case
  proof (cases rule: monitor_loop_Cons)
    case (Aborted e evs1)
    then show ?thesis by simp
  next
    case (Finished s)
    from try_tick_logged_eq [OF Finished(1)] show ?thesis by auto
  next
    case (Next st1 evs1 evs2)
    from try_tick_logged_eq [OF Next(1)] Cons.IH [OF Next(2)] show ?thesis by auto
  qed
qed

lemma monitor_loop_Polling_logged:
  assumes "monitor_loop py self dag_id dag_run_id interval envs st = (Polling, st', evs)"
  shows "logged_tasks st' = logged_tasks st \<union> (\<Union>env\<in>set envs. completed_keys py self env)"
  using assms
proof (induction envs arbitrary: st evs)
  case Nil
  then show ?case by simp
next
  case (Cons env envs)
  from Cons.prems show ?case
  proof (cases rule: monitor_loop_Cons)
    case (Aborted e evs1)
    then show ?thesis by simp
  next
    case (Finished s)
    then show ?thesis by simp
  next
    case (Next st1 evs1 evs2)
    from try_tick_logged_eq [OF Next(1)] Cons.IH [OF Next(2)] show ?thesis by auto
  qed
qed

lemma monitor_loop_Finished_logged:
  assumes "monitor_loop py self dag_id dag_run_id interval envs st = (Finished s, st', evs)"
  shows "\<exists>n<length envs. fetch_state py self (envs ! n) = Inr s
           \<and> logged_tasks st'
               = logged_tasks st \<union> (\<Union>env\<in>set (take (Suc n) envs). completed_keys py self env)"
  using assms
proof (induction envs arbitrary: st evs)
  case Nil
  then show ?case by simp
next
  case (Cons env envs)
  from Cons.prems show ?case
  proof (cases rule: monitor_loop_Cons)
    case (Aborted e evs1)
    then show ?thesis by simp
  next
    case (Finished s')
    with try_tick_Some [OF Finished(1)] try_tick_logged_eq [OF Finished(1)]
    show ?thesis by (intro exI [of _ 0]) simp
  next
    case (Next st1 evs1 evs2)
    from Cons.IH [OF Next(2)] obtain n where n: "n < length envs"
      "fetch_state py self (envs ! n) = Inr s"
      "logged_tasks st'
         = logged_tasks st1 \<union> (\<Union>env\<in>set (take (Suc n) envs). completed_keys py self env)"
      by blast
    with try_tick_logged_eq [OF Next(1)] show ?thesis
      by (intro exI [of _ "Suc n"]) auto
  qed
qed

lemma monitor_loop_added:
  assumes "monitor_loop py self dag_id dag_run_id interval envs st = (out, st', evs)"
    and "k \<in> logged_tasks st'" and "k \<notin> logged_tasks st"
  shows "\<exists>tid. py_hash tid = Inr k \<and> Request (GetLogs dag_id dag_run_id tid) \<in> set evs"
  using assms
proof (induction envs arbitrary: st evs)
  case Nil
  then show ?case by simp
next
  case (Cons env envs)
  from Cons.prems(1) show ?case
  proof (cases rule: monitor_loop_Cons)
    case (Aborted e evs1)
    with Cons.prems(2,3) show ?thesis by simp
  next
    case (Finished s)
    from try_tick_added [OF Finished(1) Cons.prems(2,3)] show ?thesis .
  next
    case (Next st1 evs1 evs2)
    show ?thesis
    proof (cases "k \<in> logged_tasks st1")
      case True
      from try_tick_added [OF Next(1) True Cons.prems(3)] Next(3) show ?thesis by auto
    next
      case False
      from Cons.IH [OF Next(2) Cons.prems(2) False] Next(3) show ?thesis by auto
    qed
  qed
qed

text \<open>
  Claim C6. When the loop body processes a task (it raises nothing): if the task is in
  \<^verbatim>\<open>logged_tasks\<close> it is skipped, nothing is requested or printed and the state is unchanged;
  if it is not, it is in \<^verbatim>\<open>logged_tasks\<close> afterwards if and only if the state just observed
  is \<^verbatim>\<open>success\<close> or \<^verbatim>\<open>failed\<close>, no other task enters or leaves the set, and a task that is
  added has had its Log Tailer call in this same step, at that state, before (the effects of
  the step are those of the call, which start with the log request, and the cutoff stored is
  the one the call returned). A tick that raises nothing applies this body to every task
  instance fetched: after it \<^verbatim>\<open>logged_tasks\<close> holds what it held before and the tasks the
  tick has seen completed. Along the loop, over any number of ticks: nothing ever leaves
  \<^verbatim>\<open>logged_tasks\<close>, and what enters was seen completed in one of the ticks; when the ticks
  given are used up, and when the loop has finished at a tick, the set holds just the tasks
  seen completed in the ticks that have run; no log request is made for a task that is in
  the set when the loop starts (so a task is added at most once and is skipped in every
  tick after); and a log request has been made for every task that has entered the set.
\<close>

theorem task_step_logged_tasks:
  "(py_get task ''task_id'' JNull = Inr task_id \<and> py_hash task_id = Inr k
      \<and> py_get task ''state'' JNull = Inr task_state
      \<and> task_step py self dag_id dag_run_id env i task st = (Inr st', evs) \<longrightarrow>
      (if k \<in> logged_tasks st then st' = st \<and> evs = []
       else (k \<in> logged_tasks st' \<longleftrightarrow> task_state \<in> JStr ` completed_states)
            \<and> logged_tasks st' - {k} = logged_tasks st
            \<and> (task_state \<in> JStr ` completed_states \<longrightarrow>
                 (\<exists>evs'. evs = Request (GetLogs dag_id dag_run_id task_id) # evs')
                 \<and> (get_cutoff st' k, evs)
                     = print_task_logs py self dag_id dag_run_id task_id (get_cutoff st k) (log_resp env i))))
   \<and> (try_tick py self dag_id dag_run_id interval env st = (Inr (fin, st'), evs) \<longrightarrow>
        logged_tasks st' = logged_tasks st \<union> completed_keys py self env)
   \<and> (monitor_loop py self dag_id dag_run_id interval envs st = (out, st', evs) \<longrightarrow>
        logged_tasks st \<subseteq> logged_tasks st'
        \<and> logged_tasks st' \<subseteq> logged_tasks st \<union> (\<Union>env\<in>set envs. completed_keys py self env)
        \<and> (out = Polling \<longrightarrow>
             logged_tasks st' = logged_tasks st \<union> (\<Union>env\<in>set envs. completed_keys py self env))
        \<and> (\<forall>s. out = Finished s \<longrightarrow>
             (\<exists>n<length envs. fetch_state py self (envs ! n) = Inr s
                \<and> logged_tasks st'
                    = logged_tasks st \<union> (\<Union>env\<in>set (take (Suc n) envs). completed_keys py self env)))
        \<and> (\<forall>d r tid t. py_hash tid = Inr t \<and> t \<in> logged_tasks st \<longrightarrow>
              Request (GetLogs d r tid) \<notin> set evs)
        \<and> (\<forall>t. t \<in> logged_tasks st' \<and> t \<notin> logged_tasks st \<longrightarrow>
              (\<exists>tid. py_hash tid = Inr t \<and> Request (GetLogs dag_id dag_run_id tid) \<in> set evs)))"
proof (intro conjI impI allI)
  assume h: "py_get task ''task_id'' JNull = Inr task_id \<and> py_hash task_id = Inr k
      \<and> py_get task ''state'' JNull = Inr task_state
      \<and> task_step py self dag_id dag_run_id env i task st = (Inr st', evs)"
  show "if k \<in> logged_tasks st then st' = st \<and> evs = []
       else (k \<in> logged_tasks st' \<longleftrightarrow> task_state \<in> JStr ` completed_states)
            \<and> logged_tasks st' - {k} = logged_tasks st
            \<and> (task_state \<in> JStr ` completed_states \<longrightarrow>
                 (\<exists>evs'. evs = Request (GetLogs dag_id dag_run_id task_id) # evs')
                 \<and> (get_cutoff st' k, evs)
                     = print_task_logs py self dag_id dag_run_id task_id (get_cutoff st k) (log_resp env i))"
  proof (cases "k \<in> logged_tasks st")
    case True
    with h show ?thesis by (auto simp: task_step_def)
  next
    case False
    obtain c evs0 where p: "print_task_logs py self dag_id dag_run_id task_id (get_cutoff st k) (log_resp env i) = (c, evs0)"
      by fastforce
    from print_task_logs_request [of py self dag_id dag_run_id task_id "get_cutoff st k" "log_resp env i"] p
    obtain evs' where e: "evs0 = Request (GetLogs dag_id dag_run_id task_id) # evs'" by auto
    from h False p e show ?thesis
      by (auto simp: task_step_def bindE_eq_Inr get_cutoff_def dest!: in_completed_Inr
          split: if_splits)
  qed
next
  assume "try_tick py self dag_id dag_run_id interval env st = (Inr (fin, st'), evs)"
  then show "logged_tasks st' = logged_tasks st \<union> completed_keys py self env"
    by (rule try_tick_logged_eq)
next
  assume "monitor_loop py self dag_id dag_run_id interval envs st = (out, st', evs)"
  then show "logged_tasks st \<subseteq> logged_tasks st'" by (rule monitor_loop_logged_mono)
next
  assume "monitor_loop py self dag_id dag_run_id interval envs st = (out, st', evs)"
  then show "logged_tasks st' \<subseteq> logged_tasks st \<union> (\<Union>env\<in>set envs. completed_keys py self env)"
    by (rule monitor_loop_logged_sub)
next
  assume "monitor_loop py self dag_id dag_run_id interval envs st = (out, st', evs)" "out = Polling"
  then have "monitor_loop py self dag_id dag_run_id interval envs st = (Polling, st', evs)" by simp
  then show "logged_tasks st' = logged_tasks st \<union> (\<Union>env\<in>set envs. completed_keys py self env)"
    by (rule monitor_loop_Polling_logged)
next
  fix s
  assume "monitor_loop py self dag_id dag_run_id interval envs st = (out, st', evs)" "out = Finished s"
  then have "monitor_loop py self dag_id dag_run_id interval envs st = (Finished s, st', evs)" by simp
  then show "\<exists>n<length envs. fetch_state py self (envs ! n) = Inr s
                \<and> logged_tasks st'
                    = logged_tasks st \<union> (\<Union>env\<in>set (take (Suc n) envs). completed_keys py self env)"
    by (rule monitor_loop_Finished_logged)
next
  fix d r tid t
  assume m: "monitor_loop py self dag_id dag_run_id interval envs st = (out, st', evs)"
    and h: "py_hash tid = Inr t \<and> t \<in> logged_tasks st"
  show "Request (GetLogs d r tid) \<notin> set evs"
  proof
    assume "Request (GetLogs d r tid) \<in> set evs"
    from monitor_loop_requests [OF m this] h show False by simp
  qed
next
  fix t
  assume m: "monitor_loop py self dag_id dag_run_id interval envs st = (out, st', evs)"
    and h: "t \<in> logged_tasks st' \<and> t \<notin> logged_tasks st"
  from h have "t \<in> logged_tasks st'" "t \<notin> logged_tasks st" by simp_all
  then show "\<exists>tid. py_hash tid = Inr t \<and> Request (GetLogs dag_id dag_run_id tid) \<in> set evs"
    by (rule monitor_loop_added [OF m])
qed

text \<open>A task seen successful is logged after its call; a task in the set is skipped, also
  when it is seen running again. And the Monitor on two ticks, started with nothing logged:
  in the first the task \<^verbatim>\<open>t1\<close> is seen successful and \<^verbatim>\<open>t2\<close> running, both logs are
  requested and \<^verbatim>\<open>t1\<close> enters the set; in the second \<^verbatim>\<open>t1\<close> is skipped and only the log of
  \<^verbatim>\<open>t2\<close> is requested (nothing of it is later than its cutoff).\<close>

theorem task_step_logged_tasks_witness:
  "(case task_step ex_py (ex_runner [''task'']) ''etl'' (JStr ''r1'')
           (ex_tick ''running'' [ex_task ''t1'' ''success'']
              (ex_logs [ex_entry ''task'' ''2024-01-01T00:00:00'' ''info'' ''done'']))
           0 (ex_task ''t1'' ''success'') ex_init of
      (r, evs) \<Rightarrow>
        (case r of Inl e \<Rightarrow> False
         | Inr st' \<Rightarrow> logged_tasks st' = {KStr ''t1''}
             \<and> get_cutoff st' (KStr ''t1'') = JStr ''2024-01-01T00:00:00'')
        \<and> evs = [Request (GetLogs ''etl'' (JStr ''r1'') (JStr ''t1'')),
                 PrintLog ''2024-01-01T00:00:00 - t1: [INFO] done''])
   \<and> task_step ex_py (ex_runner [''task'']) ''etl'' (JStr ''r1'')
           (ex_tick ''running'' [ex_task ''t1'' ''running'']
              (ex_logs [ex_entry ''task'' ''2024-01-01T00:00:00'' ''info'' ''done'']))
           0 (ex_task ''t1'' ''running'') (ex_init\<lparr>logged_tasks := {KStr ''t1''}\<rparr>)
       = (Inr (ex_init\<lparr>logged_tasks := {KStr ''t1''}\<rparr>), [])
   \<and> (case try_tick ex_py (ex_runner [''task'']) ''etl'' (JStr ''r1'') 5
           (ex_tick ''running'' [ex_task ''t1'' ''success'', ex_task ''t2'' ''running'']
              (ex_logs [ex_entry ''task'' ''2024-01-01T00:00:00'' ''info'' ''done'']))
           ex_init of
      (r, evs) \<Rightarrow>
        (case r of Inl e \<Rightarrow> False | Inr (fin, st') \<Rightarrow> logged_tasks st' = {KStr ''t1''}))
   \<and> (case monitor_loop ex_py (ex_runner [''task'']) ''etl'' (JStr ''r1'') 5
           [ex_tick ''running'' [ex_task ''t1'' ''success'', ex_task ''t2'' ''running'']
              (ex_logs [ex_entry ''task'' ''2024-01-01T00:00:00'' ''info'' ''done'']),
            ex_tick ''running'' [ex_task ''t1'' ''running'', ex_task ''t2'' ''running'']
              (ex_logs [ex_entry ''task'' ''2024-01-01T00:00:00'' ''info'' ''done''])]
           ex_init of
      (out, st, evs) \<Rightarrow>
        out = Polling \<and> logged_tasks st = {KStr ''t1''}
        \<and> evs = [Request (GetStatus ''etl'' (JStr ''r1'')), Request (GetTasks ''etl'' (JStr ''r1'')),
                 Request (GetLogs ''etl'' (JStr ''r1'') (JStr ''t1'')),
                 PrintLog ''2024-01-01T00:00:00 - t1: [INFO] done'',
                 Request (GetLogs ''etl'' (JStr ''r1'') (JStr ''t2'')),
                 PrintLog ''2024-01-01T00:00:00 - t2: [INFO] done'',
                 Sleep 5,
                 Request (GetStatus ''etl'' (JStr ''r1'')), Request (GetTasks ''etl'' (JStr ''r1'')),
                 Request (GetLogs ''etl'' (JStr ''r1'') (JStr ''t2'')),
                 Sleep 5])"
proof -
  let ?r = "ex_runner [''task'']"
  let ?logs = "ex_logs [ex_entry ''task'' ''2024-01-01T00:00:00'' ''info'' ''done'']"
  let ?ta = "ex_tick ''running'' [ex_task ''t1'' ''success''] ?logs"
  let ?tb = "ex_tick ''running'' [ex_task ''t1'' ''running''] ?logs"
  let ?tc = "ex_tick ''running'' [ex_task ''t1'' ''success'', ex_task ''t2'' ''running''] ?logs"
  let ?td = "ex_tick ''running'' [ex_task ''t1'' ''running'', ex_task ''t2'' ''running''] ?logs"
  let ?st = "ex_init\<lparr>logged_tasks := {KStr ''t1''}\<rparr>"
  let ?evs = "[Request (GetLogs ''etl'' (JStr ''r1'') (JStr ''t1'')),
                 PrintLog ''2024-01-01T00:00:00 - t1: [INFO] done'']"
  have "\<not> isl (fst (task_step ex_py ?r ''etl'' (JStr ''r1'') ?ta 0 (ex_task ''t1'' ''success'') ex_init))
      \<and> snd (task_step ex_py ?r ''etl'' (JStr ''r1'') ?ta 0 (ex_task ''t1'' ''success'') ex_init) = ?evs"
    by code_simp
  then obtain sa where sa: "task_step ex_py ?r ''etl'' (JStr ''r1'') ?ta 0 (ex_task ''t1'' ''success'') ex_init
      = (Inr sa, ?evs)"
    by (metis prod.collapse sum.collapse(2))
  have pa: "py_get (ex_task ''t1'' ''success'') ''task_id'' JNull = Inr (JStr ''t1'')
      \<and> py_hash (JStr ''t1'') = Inr (KStr ''t1'')
      \<and> py_get (ex_task ''t1'' ''success'') ''state'' JNull = Inr (JStr ''success'')
      \<and> task_step ex_py ?r ''etl'' (JStr ''r1'') ?ta 0 (ex_task ''t1'' ''success'') ex_init = (Inr sa, ?evs)"
    using sa by (simp add: ex_task_def)
  have pl: "print_task_logs ex_py ?r ''etl'' (JStr ''r1'') (JStr ''t1'') (get_cutoff ex_init (KStr ''t1''))
              (log_resp ?ta 0) = (JStr ''2024-01-01T00:00:00'', ?evs)"
    by code_simp
  have ca: "logged_tasks sa = {KStr ''t1''} \<and> get_cutoff sa (KStr ''t1'') = JStr ''2024-01-01T00:00:00''"
    using task_step_logged_tasks [THEN conjunct1, THEN mp, OF pa] pl
    by (auto simp: ex_init_def completed_states_def split: if_splits)
  have "\<not> isl (fst (task_step ex_py ?r ''etl'' (JStr ''r1'') ?tb 0 (ex_task ''t1'' ''running'') ?st))"
    by code_simp
  then obtain sb evsb where sb: "task_step ex_py ?r ''etl'' (JStr ''r1'') ?tb 0 (ex_task ''t1'' ''running'') ?st
      = (Inr sb, evsb)"
    by (metis prod.collapse sum.collapse(2))
  have pb: "py_get (ex_task ''t1'' ''running'') ''task_id'' JNull = Inr (JStr ''t1'')
      \<and> py_hash (JStr ''t1'') = Inr (KStr ''t1'')
      \<and> py_get (ex_task ''t1'' ''running'') ''state'' JNull = Inr (JStr ''running'')
      \<and> task_step ex_py ?r ''etl'' (JStr ''r1'') ?tb 0 (ex_task ''t1'' ''running'') ?st = (Inr sb, evsb)"
    using sb by (simp add: ex_task_def)
  have cb: "sb = ?st \<and> evsb = []"
    using task_step_logged_tasks [THEN conjunct1, THEN mp, OF pb] by simp
  have ck: "completed_keys ex_py ?r ?tc = {KStr ''t1''}" "completed_keys ex_py ?r ?td = {}"
    by (simp_all add: completed_keys_def fetch_tasks_def ex_tick_def ex_task_def map_filter_simps
        completed_key_def completed_states_def)
  have "\<not> isl (fst (try_tick ex_py ?r ''etl'' (JStr ''r1'') 5 ?tc ex_init))"
    by code_simp
  then obtain fin sc evsc where sc: "try_tick ex_py ?r ''etl'' (JStr ''r1'') 5 ?tc ex_init
      = (Inr (fin, sc), evsc)"
    by (metis prod.collapse sum.collapse(2))
  have cc: "logged_tasks sc = {KStr ''t1''}"
    using task_step_logged_tasks [THEN conjunct2, THEN conjunct1, THEN mp, OF sc] ck
    by (simp add: ex_init_def)
  have ev: "fst (monitor_loop ex_py ?r ''etl'' (JStr ''r1'') 5 [?tc, ?td] ex_init) = Polling
      \<and> snd (snd (monitor_loop ex_py ?r ''etl'' (JStr ''r1'') 5 [?tc, ?td] ex_init))
      = [Request (GetStatus ''etl'' (JStr ''r1'')), Request (GetTasks ''etl'' (JStr ''r1'')),
                 Request (GetLogs ''etl'' (JStr ''r1'') (JStr ''t1'')),
                 PrintLog ''2024-01-01T00:00:00 - t1: [INFO] done'',
                 Request (GetLogs ''etl'' (JStr ''r1'') (JStr ''t2'')),
                 PrintLog ''2024-01-01T00:00:00 - t2: [INFO] done'',
                 Sleep 5,
                 Request (GetStatus ''etl'' (JStr ''r1'')), Request (GetTasks ''etl'' (JStr ''r1'')),
                 Request (GetLogs ''etl'' (JStr ''r1'') (JStr ''t2'')),
                 Sleep 5]"
    by code_simp
  obtain out sd evsd where sd: "monitor_loop ex_py ?r ''etl'' (JStr ''r1'') 5 [?tc, ?td] ex_init
      = (out, sd, evsd)"
    by (metis prod.collapse)
  have cd: "out = Polling \<longrightarrow> logged_tasks sd = {KStr ''t1''}"
    using task_step_logged_tasks [THEN conjunct2, THEN conjunct2, THEN mp, OF sd] ck
    by (simp add: ex_init_def)
  show ?thesis
    using sa ca sb cb sc cc sd cd ev
    by (simp del: monitor_loop.simps)
qed

subsection \<open>The cutoffs\<close>

lemma has_str_timestampD:
  "has_str_timestamp r \<Longrightarrow> \<exists>t. py_get r ''timestamp'' JNull = Inr (JStr t)"
  unfolding has_str_timestamp_def
  by (cases "py_get r ''timestamp'' JNull") (auto split: json.splits)

lemma cutoff_le_refl: "str_or_none a \<Longrightarrow> cutoff_le a a"
  by (cases a) (simp_all add: str_or_none_def cutoff_le_def)

lemma cutoff_le_trans: "cutoff_le a b \<Longrightarrow> cutoff_le b c \<Longrightarrow> cutoff_le a c"
  by (cases a; cases b; cases c) (simp_all add: cutoff_le_def)

lemma no_log_failure_append [simp]:
  "no_log_failure (xs @ ys) \<longleftrightarrow> no_log_failure xs \<and> no_log_failure ys"
  by (simp add: no_log_failure_def)

lemma py_get_item: "py_get r k JNull = Inr (JStr t) \<Longrightarrow> py_item r k = Inr (JStr t)"
  by (cases r) (auto split: option.splits)

lemma keep_entry_gt:
  assumes "srcs \<noteq> []" and "py_truthy cutoff" and "keep_entry srcs cutoff r = Inr True"
  shows "\<exists>t. py_get r ''timestamp'' JNull = Inr t \<and> py_gt t cutoff = Inr True"
  using assms by (auto simp: keep_entry_def bindE_eq_Inr split: if_splits)

lemma keep_entry_cutoff_le:
  assumes "srcs \<noteq> []" and "str_or_none cutoff" and "keep_entry srcs cutoff r = Inr True"
    and "py_get r ''timestamp'' JNull = Inr (JStr t)"
  shows "cutoff_le cutoff (JStr t)"
proof (cases "py_truthy cutoff")
  case True
  from keep_entry_gt [OF assms(1) True assms(3)] assms(4)
  have "py_gt (JStr t) cutoff = Inr True" by simp
  then show ?thesis by (cases cutoff) (auto simp: cutoff_le_def)
next
  case False
  with assms(2) show ?thesis by (cases cutoff) (auto simp: cutoff_le_def str_or_none_def)
qed

lemma try_print_task_logs_cutoff_le:
  assumes "log_sources self \<noteq> []" and "str_or_none cutoff" and "str_timestamps resp"
    and "try_print_task_logs py self dag_id dag_run_id task_id cutoff resp = (Inr v, evs)"
  shows "str_or_none v \<and> cutoff_le cutoff v"
proof -
  from try_print_task_logs_Inr [OF assms(4)] obtain kept
    where k: "fetch_filtered_logs py self cutoff resp = Inr kept"
      and v: "if kept = [] then v = cutoff else py_item (last kept) ''timestamp'' = Inr v"
    by blast
  show ?thesis
  proof (cases "kept = []")
    case True
    with v assms(2) show ?thesis by (simp add: cutoff_le_refl)
  next
    case False
    from k have "session_call py self resp = resp"
      by (auto simp: fetch_filtered_logs_def fetch_log_content_def session_call_def split: if_splits)
    with k obtain rs where rs: "fetch_log_content resp = Inr rs"
      and f: "filter_logs (log_sources self) cutoff rs = Inr kept"
      by (auto simp: fetch_filtered_logs_def bindE_eq_Inr)
    from filter_logs_Inr [OF f] False
    have l: "last kept \<in> set rs" "keep_entry (log_sources self) cutoff (last kept) = Inr True"
      using last_in_set [of kept] by auto
    from assms(3) rs l(1) have "has_str_timestamp (last kept)"
      by (simp add: str_timestamps_def list_all_iff)
    from has_str_timestampD [OF this]
    obtain t where t: "py_get (last kept) ''timestamp'' JNull = Inr (JStr t)" by blast
    from py_get_item [OF t] v False have "v = JStr t" by simp
    with keep_entry_cutoff_le [OF assms(1,2) l(2) t] show ?thesis
      by (simp add: str_or_none_def)
  qed
qed

lemma print_task_logs_no_failure:
  assumes "print_task_logs py self dag_id dag_run_id task_id cutoff resp = (v, evs)"
    and "no_log_failure evs"
  shows "try_print_task_logs py self dag_id dag_run_id task_id cutoff resp = (Inr v, evs)"
  using assms
  by (auto simp: print_task_logs_def no_log_failure_def split: sum.splits prod.splits)

lemma task_step_cutoffs:
  assumes "log_sources self \<noteq> []" and "\<forall>k. str_or_none (get_cutoff st k)"
    and "str_timestamps (log_resp env i)"
    and "task_step py self dag_id dag_run_id env i task st = (Inr st', evs)" and "no_log_failure evs"
  shows "(\<forall>k. str_or_none (get_cutoff st' k)) \<and> (\<forall>k. cutoff_le (get_cutoff st k) (get_cutoff st' k))"
proof -
  have same: "(\<forall>k. str_or_none (get_cutoff st k)) \<and> (\<forall>k. cutoff_le (get_cutoff st k) (get_cutoff st k))"
    using assms(2) by (simp add: cutoff_le_refl)
  from assms(4) obtain task_id task_state k
    where g: "py_get task ''task_id'' JNull = Inr task_id" "py_get task ''state'' JNull = Inr task_state"
      "py_hash task_id = Inr k"
    by (auto simp: task_step_def bindE_eq_Inr split: sum.splits)
  show ?thesis
  proof (cases "k \<in> logged_tasks st \<or> task_state \<notin> JStr ` (running_states \<union> completed_states)")
    case True
    with g assms(4) have "get_cutoff st' = get_cutoff st"
      by (auto simp: task_step_def bindE_eq_Inr get_cutoff_def fun_eq_iff split: if_splits)
    with same show ?thesis by simp
  next
    case False
    obtain c evs0 where p: "print_task_logs py self dag_id dag_run_id task_id (get_cutoff st k) (log_resp env i) = (c, evs0)"
      by fastforce
    with g False assms(4) have e: "evs0 = evs"
      and s: "\<forall>j. get_cutoff st' j = (if j = k then c else get_cutoff st j)"
      by (auto simp: task_step_def bindE_eq_Inr get_cutoff_def split: if_splits)
    from print_task_logs_no_failure [OF p] e assms(5)
    have "try_print_task_logs py self dag_id dag_run_id task_id (get_cutoff st k) (log_resp env i) = (Inr c, evs0)"
      by simp
    from try_print_task_logs_cutoff_le [OF assms(1) _ assms(3) this] assms(2)
    have "str_or_none c \<and> cutoff_le (get_cutoff st k) c" by simp
    with s same show ?thesis by simp
  qed
qed

lemma tasks_loop_cutoffs:
  assumes "log_sources self \<noteq> []" and "\<forall>i. str_timestamps (log_resp env i)"
    and "\<forall>k. str_or_none (get_cutoff st k)"
    and "tasks_loop py self dag_id dag_run_id env i tasks st = (Inr st', evs)" and "no_log_failure evs"
  shows "(\<forall>k. str_or_none (get_cutoff st' k)) \<and> (\<forall>k. cutoff_le (get_cutoff st k) (get_cutoff st' k))"
  using assms(3-5)
proof (induction tasks arbitrary: i st evs)
  case Nil
  then show ?case by (simp add: cutoff_le_refl)
next
  case (Cons task tasks)
  from Cons.prems(2) obtain st1 evs1 evs2
    where s: "task_step py self dag_id dag_run_id env i task st = (Inr st1, evs1)"
      and l: "tasks_loop py self dag_id dag_run_id env (Suc i) tasks st1 = (Inr st', evs2)"
      and e: "evs = evs1 @ evs2"
    by (auto split: sum.splits prod.splits)
  from e Cons.prems(3) have n: "no_log_failure evs1" "no_log_failure evs2" by simp_all
  from assms(2) have "str_timestamps (log_resp env i)" by simp
  from task_step_cutoffs [OF assms(1) Cons.prems(1) this s n(1)]
  have a: "\<forall>k. str_or_none (get_cutoff st1 k)" "\<forall>k. cutoff_le (get_cutoff st k) (get_cutoff st1 k)"
    by simp_all
  from Cons.IH [OF a(1) l n(2)]
  have b: "\<forall>k. str_or_none (get_cutoff st' k)" "\<forall>k. cutoff_le (get_cutoff st1 k) (get_cutoff st' k)"
    by simp_all
  from a(2) b show ?case by (blast intro: cutoff_le_trans)
qed

lemma try_tick_cutoffs:
  assumes "log_sources self \<noteq> []" and "\<forall>i. str_timestamps (log_resp env i)"
    and "\<forall>k. str_or_none (get_cutoff st k)"
    and "try_tick py self dag_id dag_run_id interval env st = (Inr (fin, st'), evs)" and "no_log_failure evs"
  shows "(\<forall>k. str_or_none (get_cutoff st' k)) \<and> (\<forall>k. cutoff_le (get_cutoff st k) (get_cutoff st' k))"
proof -
  from assms(4) obtain tasks evs1 evs2
    where l: "tasks_loop py self dag_id dag_run_id env 0 tasks st = (Inr st', evs1)"
      and e: "evs = [Request (GetStatus dag_id dag_run_id), Request (GetTasks dag_id dag_run_id)] @ evs1 @ evs2"
    by (auto simp: try_tick_def Let_def bindE_eq_Inr split: sum.splits prod.splits if_splits)
  from e assms(5) have "no_log_failure evs1" by (simp add: no_log_failure_def)
  from tasks_loop_cutoffs [OF assms(1-3) l this] show ?thesis .
qed

lemma monitor_loop_cutoffs:
  assumes "log_sources self \<noteq> []" and "\<forall>env\<in>set envs. \<forall>i. str_timestamps (log_resp env i)"
    and "\<forall>k. str_or_none (get_cutoff st k)"
    and "monitor_loop py self dag_id dag_run_id interval envs st = (out, st', evs)" and "no_log_failure evs"
  shows "(\<forall>k. str_or_none (get_cutoff st' k)) \<and> (\<forall>k. cutoff_le (get_cutoff st k) (get_cutoff st' k))"
  using assms(2-5)
proof (induction envs arbitrary: st evs)
  case Nil
  then show ?case by (simp add: cutoff_le_refl)
next
  case (Cons env envs)
  obtain r evs1 where t: "try_tick py self dag_id dag_run_id interval env st = (r, evs1)"
    by fastforce
  show ?case
  proof (cases r)
    case (Inl e)
    with t Cons.prems show ?thesis by (simp add: cutoff_le_refl)
  next
    case (Inr a)
    obtain fin st1 where a: "a = (fin, st1)" by (cases a)
    from Cons.prems(1) have ts: "\<forall>i. str_timestamps (log_resp env i)"
      and ts': "\<forall>env\<in>set envs. \<forall>i. str_timestamps (log_resp env i)" by simp_all
    show ?thesis
    proof (cases fin)
      case (Some s)
      with t Inr a Cons.prems(3,4) have "st1 = st'" "no_log_failure evs1" by simp_all
      with try_tick_cutoffs [OF assms(1) ts Cons.prems(2), of py dag_id dag_run_id interval fin st1 evs1]
        t Inr a show ?thesis by simp
    next
      case None
      with t Inr a Cons.prems(3) obtain evs2
        where m: "monitor_loop py self dag_id dag_run_id interval envs st1 = (out, st', evs2)"
          and e: "evs = evs1 @ evs2"
        by (auto split: prod.splits)
      from e Cons.prems(4) have n: "no_log_failure evs1" "no_log_failure evs2" by simp_all
      from try_tick_cutoffs [OF assms(1) ts Cons.prems(2), of py dag_id dag_run_id interval fin st1 evs1]
        t Inr a n(1)
      have x: "\<forall>k. str_or_none (get_cutoff st1 k)" "\<forall>k. cutoff_le (get_cutoff st k) (get_cutoff st1 k)"
        by simp_all
      from Cons.IH [OF ts' x(1) m n(2)]
      have y: "\<forall>k. str_or_none (get_cutoff st' k)" "\<forall>k. cutoff_le (get_cutoff st1 k) (get_cutoff st' k)"
        by simp_all
      from x(2) y show ?thesis by (blast intro: cutoff_le_trans)
    qed
  qed
qed

lemma fetch_filtered_logs_gt:
  assumes "log_sources self \<noteq> []" and "py_truthy cutoff"
    and "fetch_filtered_logs py self cutoff resp = Inr kept"
  shows "\<forall>r\<in>set kept. \<exists>t. py_get r ''timestamp'' JNull = Inr t \<and> py_gt t cutoff = Inr True"
proof
  fix r assume r: "r \<in> set kept"
  from assms(3) obtain rs where "filter_logs (log_sources self) cutoff rs = Inr kept"
    by (auto simp: fetch_filtered_logs_def bindE_eq_Inr)
  from filter_logs_Inr [OF this] r have "keep_entry (log_sources self) cutoff r = Inr True" by simp
  from keep_entry_gt [OF assms(1,2) this]
  show "\<exists>t. py_get r ''timestamp'' JNull = Inr t \<and> py_gt t cutoff = Inr True" .
qed

text \<open>
  Claim C3 says that along any sequence of polls the stored cutoff of a task never decreases
  and no entry already printed for a task is printed again. The source takes as new cutoff
  the timestamp of the last kept entry in list order, and applies the cutoff only when a
  source filter is configured. First run, sources \<^verbatim>\<open>["task"]\<close>, the same log in two ticks with
  its later entry first: the cutoff after the first tick is the earlier timestamp, and the
  second tick prints the later entry again. Second run, no source filter: the entry printed
  in the first tick is printed again in the second, and the stored cutoff goes back from
  \<^verbatim>\<open>00:00:05\<close> to \<^verbatim>\<open>00:00:00\<close>.
\<close>

theorem cutoffs_counterexample:
  "(case monitor_loop ex_py (ex_runner [''task'']) ''etl'' (JStr ''r1'') 5
           [ex_tick ''running'' [ex_task ''t1'' ''running'']
              (ex_logs [ex_entry ''task'' ''2024-01-01T00:00:09'' ''info'' ''late'',
                        ex_entry ''task'' ''2024-01-01T00:00:05'' ''info'' ''early'']),
            ex_tick ''running'' [ex_task ''t1'' ''running'']
              (ex_logs [ex_entry ''task'' ''2024-01-01T00:00:09'' ''info'' ''late'',
                        ex_entry ''task'' ''2024-01-01T00:00:05'' ''info'' ''early''])] ex_init of
      (out, st, evs) \<Rightarrow>
        evs = [Request (GetStatus ''etl'' (JStr ''r1'')), Request (GetTasks ''etl'' (JStr ''r1'')),
               Request (GetLogs ''etl'' (JStr ''r1'') (JStr ''t1'')),
               PrintLog ''2024-01-01T00:00:09 - t1: [INFO] late'',
               PrintLog ''2024-01-01T00:00:05 - t1: [INFO] early'',
               Sleep 5,
               Request (GetStatus ''etl'' (JStr ''r1'')), Request (GetTasks ''etl'' (JStr ''r1'')),
               Request (GetLogs ''etl'' (JStr ''r1'') (JStr ''t1'')),
               PrintLog ''2024-01-01T00:00:09 - t1: [INFO] late'',
               Sleep 5])
   \<and> get_cutoff (fst (snd (monitor_loop ex_py (ex_runner []) ''etl'' (JStr ''r1'') 5
           [ex_tick ''running'' [ex_task ''t1'' ''running'']
              (ex_logs [ex_entry ''task'' ''2024-01-01T00:00:05'' ''info'' ''first''])] ex_init)))
         (KStr ''t1'') = JStr ''2024-01-01T00:00:05''
   \<and> (case monitor_loop ex_py (ex_runner []) ''etl'' (JStr ''r1'') 5
           [ex_tick ''running'' [ex_task ''t1'' ''running'']
              (ex_logs [ex_entry ''task'' ''2024-01-01T00:00:05'' ''info'' ''first'']),
            ex_tick ''running'' [ex_task ''t1'' ''running'']
              (ex_logs [ex_entry ''task'' ''2024-01-01T00:00:05'' ''info'' ''first'',
                        ex_entry ''task'' ''2024-01-01T00:00:00'' ''info'' ''second''])] ex_init of
      (out, st, evs) \<Rightarrow>
        get_cutoff st (KStr ''t1'') = JStr ''2024-01-01T00:00:00''
        \<and> evs = [Request (GetStatus ''etl'' (JStr ''r1'')), Request (GetTasks ''etl'' (JStr ''r1'')),
                 Request (GetLogs ''etl'' (JStr ''r1'') (JStr ''t1'')),
                 PrintLog ''2024-01-01T00:00:05 - t1: [INFO] first'',
                 Sleep 5,
                 Request (GetStatus ''etl'' (JStr ''r1'')), Request (GetTasks ''etl'' (JStr ''r1'')),
                 Request (GetLogs ''etl'' (JStr ''r1'') (JStr ''t1'')),
                 PrintLog ''2024-01-01T00:00:05 - t1: [INFO] first'',
                 PrintLog ''2024-01-01T00:00:00 - t1: [INFO] second'',
                 Sleep 5])"
  by code_simp

text \<open>
  Claim C3, amended: with a source filter configured and string timestamps, along any
  sequence of polls in which the Log Tailer reports no failure, the stored cutoff of every
  task never decreases; and a call given a cutoff (one that is not empty) prints only entries
  whose timestamp is strictly greater than that cutoff. (What a failing call does to the
  cutoff is claim C1's matter and is left out here.)
\<close>

theorem cutoffs_non_decreasing:
  "(log_sources self \<noteq> [] \<and> (\<forall>env\<in>set envs. \<forall>i. str_timestamps (log_resp env i))
      \<and> (\<forall>k. str_or_none (get_cutoff st k))
      \<and> monitor_loop py self dag_id dag_run_id interval envs st = (out, st', evs)
      \<and> no_log_failure evs \<longrightarrow>
      (\<forall>k. cutoff_le (get_cutoff st k) (get_cutoff st' k)))
   \<and> (log_sources self \<noteq> [] \<and> py_truthy cutoff
      \<and> fetch_filtered_logs py self cutoff resp = Inr kept \<longrightarrow>
      (\<forall>r\<in>set kept. \<exists>t. py_get r ''timestamp'' JNull = Inr t \<and> py_gt t cutoff = Inr True))"
proof (intro conjI impI)
  assume "log_sources self \<noteq> [] \<and> (\<forall>env\<in>set envs. \<forall>i. str_timestamps (log_resp env i))
      \<and> (\<forall>k. str_or_none (get_cutoff st k))
      \<and> monitor_loop py self dag_id dag_run_id interval envs st = (out, st', evs)
      \<and> no_log_failure evs"
  then show "\<forall>k. cutoff_le (get_cutoff st k) (get_cutoff st' k)"
    using monitor_loop_cutoffs [of self envs st py dag_id dag_run_id interval out st' evs] by blast
next
  assume "log_sources self \<noteq> [] \<and> py_truthy cutoff
      \<and> fetch_filtered_logs py self cutoff resp = Inr kept"
  then show "\<forall>r\<in>set kept. \<exists>t. py_get r ''timestamp'' JNull = Inr t \<and> py_gt t cutoff = Inr True"
    using fetch_filtered_logs_gt [of self cutoff py resp kept] by blast
qed

text \<open>A tick that starts with the cutoff \<^verbatim>\<open>00:00:00\<close> stored for the task: only the entry
  after it is kept, and the stored cutoff moves up to \<^verbatim>\<open>00:00:07\<close>.\<close>

theorem cutoffs_non_decreasing_witness:
  "log_sources (ex_runner [''task'']) \<noteq> []
   \<and> str_timestamps (ex_logs [ex_entry ''task'' ''2024-01-01T00:00:00'' ''info'' ''started'',
                               ex_entry ''task'' ''2024-01-01T00:00:07'' ''info'' ''done''])
   \<and> (case monitor_loop ex_py (ex_runner [''task'']) ''etl'' (JStr ''r1'') 5
           [ex_tick ''running'' [ex_task ''t1'' ''running'']
              (ex_logs [ex_entry ''task'' ''2024-01-01T00:00:00'' ''info'' ''started'',
                        ex_entry ''task'' ''2024-01-01T00:00:07'' ''info'' ''done''])]
           (ex_state [(KStr ''t1'', JStr ''2024-01-01T00:00:00'')]) of
      (out, st', evs) \<Rightarrow>
        no_log_failure evs
        \<and> get_cutoff st' (KStr ''t1'') = JStr ''2024-01-01T00:00:07''
        \<and> (\<forall>k. cutoff_le (get_cutoff (ex_state [(KStr ''t1'', JStr ''2024-01-01T00:00:00'')]) k)
                  (get_cutoff st' k)))
   \<and> fetch_filtered_logs ex_py (ex_runner [''task'']) (JStr ''2024-01-01T00:00:00'')
        (ex_logs [ex_entry ''task'' ''2024-01-01T00:00:00'' ''info'' ''started'',
                  ex_entry ''task'' ''2024-01-01T00:00:07'' ''info'' ''done''])
      = Inr [ex_entry ''task'' ''2024-01-01T00:00:07'' ''info'' ''done'']
   \<and> (\<exists>t. py_get (ex_entry ''task'' ''2024-01-01T00:00:07'' ''info'' ''done'') ''timestamp'' JNull = Inr t
          \<and> py_gt t (JStr ''2024-01-01T00:00:00'') = Inr True)"
proof -
  let ?r = "ex_runner [''task'']"
  let ?logs = "ex_logs [ex_entry ''task'' ''2024-01-01T00:00:00'' ''info'' ''started'',
                        ex_entry ''task'' ''2024-01-01T00:00:07'' ''info'' ''done'']"
  let ?tick = "ex_tick ''running'' [ex_task ''t1'' ''running''] ?logs"
  let ?st = "ex_state [(KStr ''t1'', JStr ''2024-01-01T00:00:00'')]"
  have h1: "log_sources ?r \<noteq> []" by (simp add: ex_runner_def)
  have h2: "str_timestamps ?logs" by code_simp
  then have h2': "\<forall>env\<in>set [?tick]. \<forall>i. str_timestamps (log_resp env i)"
    by (simp add: ex_tick_def)
  have h3: "\<forall>k. str_or_none (get_cutoff ?st k)"
    by (simp add: ex_state_def get_cutoff_def str_or_none_def)
  obtain out st' evs where m: "monitor_loop ex_py ?r ''etl'' (JStr ''r1'') 5 [?tick] ?st = (out, st', evs)"
    by (metis prod.collapse)
  have "no_log_failure (snd (snd (monitor_loop ex_py ?r ''etl'' (JStr ''r1'') 5 [?tick] ?st)))
      \<and> get_cutoff (fst (snd (monitor_loop ex_py ?r ''etl'' (JStr ''r1'') 5 [?tick] ?st))) (KStr ''t1'')
          = JStr ''2024-01-01T00:00:07''"
    by code_simp
  with m have h5: "no_log_failure evs" and c: "get_cutoff st' (KStr ''t1'') = JStr ''2024-01-01T00:00:07''"
    by simp_all
  have p: "log_sources ?r \<noteq> [] \<and> (\<forall>env\<in>set [?tick]. \<forall>i. str_timestamps (log_resp env i))
      \<and> (\<forall>k. str_or_none (get_cutoff ?st k))
      \<and> monitor_loop ex_py ?r ''etl'' (JStr ''r1'') 5 [?tick] ?st = (out, st', evs)
      \<and> no_log_failure evs"
    using h1 h2' h3 m h5 by blast
  note c1 = cutoffs_non_decreasing [THEN conjunct1, THEN mp, OF p]
  have f: "fetch_filtered_logs ex_py ?r (JStr ''2024-01-01T00:00:00'') ?logs
      = Inr [ex_entry ''task'' ''2024-01-01T00:00:07'' ''info'' ''done'']"
    by code_simp
  have q: "log_sources ?r \<noteq> [] \<and> py_truthy (JStr ''2024-01-01T00:00:00'')
      \<and> fetch_filtered_logs ex_py ?r (JStr ''2024-01-01T00:00:00'') ?logs
          = Inr [ex_entry ''task'' ''2024-01-01T00:00:07'' ''info'' ''done'']"
    using h1 f by simp
  note c2 = cutoffs_non_decreasing [THEN conjunct2, THEN mp, OF q]
  show ?thesis
    using h1 h2 m h5 c c1 f c2 by (simp del: monitor_loop.simps)
qed

section \<open>Authentication\<close>

text \<open>A token the session cannot put into its header: the trigger call raises, whatever the
  server would have answered.\<close>

lemma trigger_dag_header_refused:
  assumes "\<not> header_ok py (access_token self)"
  shows "trigger_dag py self dag_id conf resp
     = (Inl (TriggerError SessionError),
        [Request (PostTrigger dag_id (if py_truthy conf then conf else JObj []))])"
  using assms by (simp add: trigger_dag_def session_call_def Let_def)

text \<open>
  Claim C9 says that every failure of the authentication, a malformed response included,
  makes the process exit with code 1 before any trigger or monitor activity. Here the
  authentication request is answered 200 with a JSON object that holds no
  \<^verbatim>\<open>access_token\<close>: line 31 returns \<^verbatim>\<open>None\<close>, nothing is raised, the DAG is triggered and
  monitored with the header \<^verbatim>\<open>Bearer None\<close>, and the process ends with code 0.
\<close>

theorem main_auth_counterexample:
  "main ex_py ex_args (ex_world (Response 200 (Some (JObj []))))
     = (Some 0,
        [Request (PostAuth ''admin'' ''secret''),
         Request (PostTrigger ''etl'' (JObj [])),
         PrintRunId (JStr ''r1''),
         Request (GetStatus ''etl'' (JStr ''r1'')), Request (GetTasks ''etl'' (JStr ''r1'')),
         PrintFinished (JStr ''success'')])"
  by code_simp

text \<open>
  Claim C9, amended. When the authentication raises (the request gets no response, the
  status is an error status as for bad credentials, the body is not JSON or is not an
  object), the process prints the error and exits with code 1, and the authentication
  request is the only request it has sent: nothing of the trigger or of the monitor has
  happened. Any other answer is taken as a success, whether or not it holds a token: the
  trigger request is the next thing the process does.
\<close>

theorem main_auth_failure:
  "(fetch_json (auth_resp w) = Inl e
      \<or> (\<exists>body. fetch_json (auth_resp w) = Inr body \<and> py_get body ''access_token'' JNull = Inl e) \<longrightarrow>
      main py a w
        = (Some 1, [Request (PostAuth (arg_user a) (arg_password a)), PrintFailed (AuthError e)]))
   \<and> (fetch_json (auth_resp w) = Inr body \<and> py_get body ''access_token'' JNull = Inr token \<longrightarrow>
      (\<exists>code evs. main py a w
         = (code, Request (PostAuth (arg_user a) (arg_password a))
                  # Request (PostTrigger (arg_dag a) (JObj [])) # evs)))"
proof (intro conjI impI)
  assume "fetch_json (auth_resp w) = Inl e
      \<or> (\<exists>body. fetch_json (auth_resp w) = Inr body \<and> py_get body ''access_token'' JNull = Inl e)"
  then show "main py a w
        = (Some 1, [Request (PostAuth (arg_user a) (arg_password a)), PrintFailed (AuthError e)])"
    by (auto simp: main_def init_runner_def get_access_token_def)
next
  assume "fetch_json (auth_resp w) = Inr body \<and> py_get body ''access_token'' JNull = Inr token"
  then show "\<exists>code evs. main py a w
         = (code, Request (PostAuth (arg_user a) (arg_password a))
                  # Request (PostTrigger (arg_dag a) (JObj [])) # evs)"
    by (auto simp: main_def init_runner_def get_access_token_def trigger_dag_def Let_def
        split: sum.splits prod.splits)
qed

text \<open>Bad credentials (401), no response, a body that is not JSON, a body that is no object;
  and an answer with a token.\<close>

theorem main_auth_failure_witness:
  "main ex_py ex_args (ex_world (Response 401 (Some (JObj [(''detail'', JStr ''Invalid credentials'')]))))
     = (Some 1, [Request (PostAuth ''admin'' ''secret''), PrintFailed (AuthError (HTTPError 401))])
   \<and> main ex_py ex_args (ex_world NoResponse)
     = (Some 1, [Request (PostAuth ''admin'' ''secret''), PrintFailed (AuthError SessionError)])
   \<and> main ex_py ex_args (ex_world (Response 200 None))
     = (Some 1, [Request (PostAuth ''admin'' ''secret''), PrintFailed (AuthError JSONDecodeError)])
   \<and> main ex_py ex_args (ex_world (Response 200 (Some (JStr ''ok''))))
     = (Some 1, [Request (PostAuth ''admin'' ''secret''), PrintFailed (AuthError AttributeError)])
   \<and> (\<exists>code evs.
         main ex_py ex_args (ex_world (Response 200 (Some (JObj [(''access_token'', JStr ''jwt'')]))))
           = (code, Request (PostAuth ''admin'' ''secret'') # Request (PostTrigger ''etl'' (JObj [])) # evs))"
  using main_auth_failure [where w = "ex_world (Response 401 (Some (JObj [(''detail'', JStr ''Invalid credentials'')])))"
      and e = "HTTPError 401" and a = ex_args and py = ex_py, THEN conjunct1]
    main_auth_failure [where w = "ex_world NoResponse" and e = SessionError and a = ex_args
      and py = ex_py, THEN conjunct1]
    main_auth_failure [where w = "ex_world (Response 200 None)" and e = JSONDecodeError and a = ex_args
      and py = ex_py, THEN conjunct1]
    main_auth_failure [where w = "ex_world (Response 200 (Some (JStr ''ok'')))" and e = AttributeError
      and a = ex_args and py = ex_py, THEN conjunct1]
    main_auth_failure [where w = "ex_world (Response 200 (Some (JObj [(''access_token'', JStr ''jwt'')])))"
      and body = "JObj [(''access_token'', JStr ''jwt'')]" and token = "JStr ''jwt''"
      and a = ex_args and py = ex_py, THEN conjunct2]
  by (simp add: ex_world_def ex_args_def)


end
